theory Spec2Isabelle
  imports Main
begin

section \<open>Tokens and lexer state (sqllexer.go)\<close>

datatype TokenType =
    ERROR | EOF | WS | STRING | INCOMPLETE_STRING | NUMBER | IDENT | QUOTED_IDENT
  | OPERATOR | WILDCARD | COMMENT | MULTILINE_COMMENT | PUNCTUATION
  | DOLLAR_QUOTED_FUNCTION | DOLLAR_QUOTED_STRING | POSITIONAL_PARAMETER
  | BIND_PARAMETER | FUNCTION | SYSTEM_VARIABLE | UNKNOWN | COMMAND | KEYWORD
  | JSON_OP | BOOLEAN | NULL | PROC_INDICATOR | CTE_INDICATOR | ALIAS_INDICATOR

text \<open>
  A Go string is a sequence of bytes: \<open>string\<close> here, one \<open>char\<close> per byte. A rune is
  a natural number. \<open>Token\<close> carries the fields of the Go struct, with the three fields of
  \<open>tokenExtraInfo\<close> (never nil for a token of the lexer, see \<open>New\<close>) inlined.
\<close>

record Token =
  Type :: TokenType
  IsTableIndicator :: bool
  Start :: nat
  End :: nat
  Digits :: "nat list"
  Quotes :: "nat list"
  OutputValue :: string

record LastValueToken =
  lvType :: TokenType
  lvValue :: string
  lvIsTableIndicator :: bool

text \<open>
  The DBMS of \<open>LexerConfig\<close> after alias resolution. \<open>DBMSGeneric\<close> stands for every value
  the lexer does not branch on (the empty string of a lexer built without options,
  PostgreSQL).
\<close>

datatype DBMSType = DBMSGeneric | DBMSSQLServer | DBMSMySQL | DBMSOracle | DBMSSnowflake

record Lexer =
  src :: string
  cursor :: nat
  start :: nat
  DBMS :: DBMSType
  digits :: "nat list"
  quotes :: "nat list"
  isTableIndicator :: bool

definition New :: "string \<Rightarrow> DBMSType \<Rightarrow> Lexer" where
  "New input dbms =
     \<lparr>src = input, cursor = 0, start = 0, DBMS = dbms, digits = [], quotes = [],
      isTableIndicator = False\<rparr>"

definition SetOutputValue :: "Token \<Rightarrow> string \<Rightarrow> Token" where
  "SetOutputValue t outputValue = t\<lparr>OutputValue := outputValue\<rparr>"

text \<open>\<open>(*source)[t.Start:t.End]\<close>; every token of the lexer has \<open>Start \<le> End \<le> len\<close>.\<close>

definition Value :: "Token \<Rightarrow> string \<Rightarrow> string" where
  "Value t source = take (End t - Start t) (drop (Start t) source)"

definition String :: "Token \<Rightarrow> string \<Rightarrow> string" where
  "String t source = (if OutputValue t \<noteq> [] then OutputValue t else Value t source)"

definition GetLastValueToken :: "Token \<Rightarrow> string \<Rightarrow> LastValueToken" where
  "GetLastValueToken t source =
     \<lparr>lvType = Type t, lvValue = String t source, lvIsTableIndicator = IsTableIndicator t\<rparr>"

section \<open>Runes (unicode/utf8 of the Go standard library)\<close>

definition RuneError :: nat where
  "RuneError = 0xFFFD"

text \<open>
  \<open>utf8.DecodeRuneInString\<close>: the rune at the head of the bytes and its width. An empty
  string gives \<open>(RuneError, 0)\<close>, an ill-formed sequence \<open>(RuneError, 1)\<close>.
\<close>

definition rune2 :: "nat \<Rightarrow> nat \<Rightarrow> nat" where
  "rune2 s0 s1 = (s0 mod 32) * 64 + s1 mod 64"

definition rune3 :: "nat \<Rightarrow> nat \<Rightarrow> nat \<Rightarrow> nat" where
  "rune3 s0 s1 s2 = (s0 mod 16) * 4096 + (s1 mod 64) * 64 + s2 mod 64"

definition rune4 :: "nat \<Rightarrow> nat \<Rightarrow> nat \<Rightarrow> nat \<Rightarrow> nat" where
  "rune4 s0 s1 s2 s3 = (s0 mod 8) * 262144 + (s1 mod 64) * 4096 + (s2 mod 64) * 64 + s3 mod 64"

definition DecodeRuneInString :: "string \<Rightarrow> nat \<times> nat" where
  "DecodeRuneInString s =
     (case s of
        [] \<Rightarrow> (RuneError, 0)
      | c0 # t \<Rightarrow>
          (let s0 = (of_char c0 :: nat) in
           if s0 < 0x80 then (s0, 1)
           else if s0 < 0xC2 \<or> 0xF4 < s0 then (RuneError, 1)
           else
             (let sz = (if s0 < 0xE0 then 2 else if s0 < 0xF0 then 3 else (4::nat));
                  lo = (if s0 = 0xE0 then 0xA0 else if s0 = 0xF0 then 0x90 else (0x80::nat));
                  hi = (if s0 = 0xED then 0x9F else if s0 = 0xF4 then 0x8F else (0xBF::nat))
              in if length s < sz then (RuneError, 1)
                 else
                   (let s1 = (of_char (t ! 0) :: nat) in
                    if s1 < lo \<or> hi < s1 then (RuneError, 1)
                    else if sz \<le> 2 then (rune2 s0 s1, 2)
                    else
                      (let s2 = (of_char (t ! 1) :: nat) in
                       if s2 < 0x80 \<or> 0xBF < s2 then (RuneError, 1)
                       else if sz \<le> 3 then (rune3 s0 s1 s2, 3)
                       else
                         (let s3 = (of_char (t ! 2) :: nat) in
                          if s3 < 0x80 \<or> 0xBF < s3 then (RuneError, 1)
                          else (rune4 s0 s1 s2 s3, 4)))))))"

text \<open>\<open>utf8.RuneLen\<close>: the number of bytes of the encoding, \<open>-1\<close> for no valid rune.\<close>

definition RuneLen :: "nat \<Rightarrow> int" where
  "RuneLen r =
     (if r \<le> 0x7F then 1
      else if r \<le> 0x7FF then 2
      else if 0xD800 \<le> r \<and> r \<le> 0xDFFF then - 1
      else if r \<le> 0xFFFF then 3
      else if r \<le> 0x10FFFF then 4
      else - 1)"

text \<open>The conversion \<open>[]rune(s)\<close> of a string: its runes in order, an ill-formed byte as
  \<open>RuneError\<close>.\<close>

function runes_of :: "string \<Rightarrow> nat list" where
  "runes_of s =
     (if s = [] then []
      else fst (DecodeRuneInString s) # runes_of (drop (max 1 (snd (DecodeRuneInString s))) s))"
  by pat_completeness auto
termination
  by (relation "measure length") auto

declare runes_of.simps [simp del]

text \<open>The rune of an ASCII character.\<close>

abbreviation rune :: "char \<Rightarrow> nat" where
  "rune c \<equiv> of_char c"

section \<open>Character classes and keyword table\<close>

text \<open>
  Modelled from the spec: the character predicates that sqllexer.go calls are declared in
  a file that is not part of the sources at hand. They follow section 4.1 of the
  specification: white space is blank, tab, newline and carriage return; a letter is an
  ASCII letter, an underscore or a non-ASCII letter; the end-of-input sentinel is the
  rune 0. \<open>unicode.IsLetter\<close> of the Go standard library is the parameter \<open>L\<close>, consulted
  for runes above 127 only.
\<close>

definition isWhitespace :: "nat \<Rightarrow> bool" where
  "isWhitespace ch \<longleftrightarrow> ch = rune CHR '' '' \<or> ch = 9 \<or> ch = 10 \<or> ch = 13"

definition isAsciiLetter :: "nat \<Rightarrow> bool" where
  "isAsciiLetter ch \<longleftrightarrow>
     (rune CHR ''a'' \<le> ch \<and> ch \<le> rune CHR ''z'') \<or> (rune CHR ''A'' \<le> ch \<and> ch \<le> rune CHR ''Z'')"

definition isDigit :: "nat \<Rightarrow> bool" where
  "isDigit ch \<longleftrightarrow> rune CHR ''0'' \<le> ch \<and> ch \<le> rune CHR ''9''"

definition isExpontent :: "nat \<Rightarrow> bool" where
  "isExpontent ch \<longleftrightarrow> ch = rune CHR ''e'' \<or> ch = rune CHR ''E''"

definition isLeadingSign :: "nat \<Rightarrow> bool" where
  "isLeadingSign ch \<longleftrightarrow> ch = rune CHR ''+'' \<or> ch = rune CHR ''-''"

definition isLetter :: "(nat \<Rightarrow> bool) \<Rightarrow> nat \<Rightarrow> bool" where
  "isLetter L ch \<longleftrightarrow> isAsciiLetter ch \<or> ch = rune CHR ''_'' \<or> (127 < ch \<and> L ch)"

definition isAlphaNumeric :: "(nat \<Rightarrow> bool) \<Rightarrow> nat \<Rightarrow> bool" where
  "isAlphaNumeric L ch \<longleftrightarrow> isLetter L ch \<or> isDigit ch"

definition isDoubleQuote :: "nat \<Rightarrow> bool" where
  "isDoubleQuote ch \<longleftrightarrow> ch = 0x22"

definition isSingleQuote :: "nat \<Rightarrow> bool" where
  "isSingleQuote ch \<longleftrightarrow> ch = 0x27"

definition isOperator :: "nat \<Rightarrow> bool" where
  "isOperator ch \<longleftrightarrow> ch \<in> set (map rune ''+-*/=<>!&|^%~?@:#'')"

definition isWildcard :: "nat \<Rightarrow> bool" where
  "isWildcard ch \<longleftrightarrow> ch = rune CHR ''*''"

definition isSingleLineComment :: "nat \<Rightarrow> nat \<Rightarrow> bool" where
  "isSingleLineComment ch nextCh \<longleftrightarrow> ch = rune CHR ''-'' \<and> nextCh = rune CHR ''-''"

definition isMultiLineComment :: "nat \<Rightarrow> nat \<Rightarrow> bool" where
  "isMultiLineComment ch nextCh \<longleftrightarrow> ch = rune CHR ''/'' \<and> nextCh = rune CHR ''*''"

definition isPunctuation :: "nat \<Rightarrow> bool" where
  "isPunctuation ch \<longleftrightarrow> ch \<in> set (map rune ''(),;.:[]{}'')"

definition isEOF :: "nat \<Rightarrow> bool" where
  "isEOF ch \<longleftrightarrow> ch = 0"

definition isIdentifier :: "(nat \<Rightarrow> bool) \<Rightarrow> nat \<Rightarrow> bool" where
  "isIdentifier L ch \<longleftrightarrow>
     ch = 0x22 \<or> ch \<in> set (map rune ''.?$#/@!'') \<or> isLetter L ch \<or> isDigit ch"

definition isValueToken :: "Token \<Rightarrow> bool" where
  "isValueToken t \<longleftrightarrow>
     Type t \<noteq> EOF \<and> Type t \<noteq> WS \<and> Type t \<noteq> COMMENT \<and> Type t \<noteq> MULTILINE_COMMENT"


text \<open>
  Modelled from the spec: the keyword table behind \<open>keywordRoot\<close> (its declaration is not
  part of the sources at hand). An entry is a keyword in upper case, its token kind and
  its table-indicator flag. A node of the trie built from a table is the upper-case path
  that leads to it: the root is the empty path, a child exists where some keyword
  continues the path, and a node is accepting where its path is a keyword. The scanner
  below takes the table as its parameter \<open>K\<close>.
\<close>

type_synonym keywordTable = "(string \<times> TokenType \<times> bool) list"

type_synonym trieNode = string

definition keywordRoot :: trieNode where
  "keywordRoot = []"

definition nodeChildren :: "keywordTable \<Rightarrow> trieNode \<Rightarrow> nat \<Rightarrow> trieNode option" where
  "nodeChildren K node upperCh =
     (let p = node @ [char_of upperCh]
      in if list_ex (\<lambda>e. take (length p) (fst e) = p) K then Some p else None)"

definition nodeIsEnd :: "keywordTable \<Rightarrow> trieNode \<Rightarrow> bool" where
  "nodeIsEnd K node \<longleftrightarrow> map_of K node \<noteq> None"

definition nodeTokenType :: "keywordTable \<Rightarrow> trieNode \<Rightarrow> TokenType" where
  "nodeTokenType K node = (case map_of K node of Some (t, _) \<Rightarrow> t | None \<Rightarrow> ERROR)"

definition nodeIsTableIndicator :: "keywordTable \<Rightarrow> trieNode \<Rightarrow> bool" where
  "nodeIsTableIndicator K node = (case map_of K node of Some (_, b) \<Rightarrow> b | None \<Rightarrow> False)"

text \<open>
  Modelled from the spec: the keywords that the specification names (sections 2, 3, 4.2
  and 8), with the kinds and table-indicator flags it gives them. In the words of
  section 4.2, \<open>AS\<close> is \<open>ALIAS_INDICATOR\<close> and \<open>WITH\<close> is a \<open>KEYWORD\<close>; in the words of
  section 9, the trie does not emit \<open>CTE_INDICATOR\<close>.
\<close>

definition sqlKeywords :: keywordTable where
  "sqlKeywords =
     [(''SELECT'', COMMAND, False), (''INSERT'', COMMAND, False), (''UPDATE'', COMMAND, True),
      (''DELETE'', COMMAND, False), (''CREATE'', COMMAND, False), (''ALTER'', COMMAND, False),
      (''DROP'', COMMAND, False), (''GRANT'', COMMAND, False), (''REVOKE'', COMMAND, False),
      (''BEGIN'', COMMAND, False), (''COMMIT'', COMMAND, False), (''JOIN'', COMMAND, True),
      (''TRUNCATE'', COMMAND, False),
      (''WHERE'', KEYWORD, False), (''AND'', KEYWORD, False), (''OR'', KEYWORD, False),
      (''IN'', KEYWORD, False), (''LIMIT'', KEYWORD, False),
      (''FROM'', KEYWORD, True), (''INTO'', KEYWORD, True), (''TABLE'', KEYWORD, True),
      (''TRUE'', BOOLEAN, False), (''FALSE'', BOOLEAN, False), (''NULL'', NULL, False),
      (''PROCEDURE'', PROC_INDICATOR, False), (''FUNCTION'', PROC_INDICATOR, False),
      (''WITH'', KEYWORD, False), (''AS'', ALIAS_INDICATOR, False)]"

section \<open>The lexer (sqllexer.go)\<close>

definition lookAhead :: "Lexer \<Rightarrow> nat \<Rightarrow> nat" where
  "lookAhead s n =
     (if cursor s + n \<ge> length (src s) then 0
      else fst (DecodeRuneInString (drop (cursor s + n) (src s))))"

definition peek :: "Lexer \<Rightarrow> nat" where
  "peek s = lookAhead s 0"

text \<open>\<open>nextBy\<close> returns the rune at the new cursor position together with the lexer.\<close>

definition nextBy :: "Lexer \<Rightarrow> nat \<Rightarrow> nat \<times> Lexer" where
  "nextBy s n =
     (if cursor s + n > length (src s) then (0, s)
      else
        (let s' = s\<lparr>cursor := cursor s + n\<rparr>
         in if cursor s' \<ge> length (src s') then (0, s')
            else (fst (DecodeRuneInString (drop (cursor s') (src s'))), s')))"

definition next' :: "Lexer \<Rightarrow> nat \<times> Lexer" where
  "next' s = nextBy s 1"

text \<open>\<open>matchAt\<close> compares bytes of the source with the runes of \<open>match\<close> cut to a byte.\<close>

definition matchAt :: "Lexer \<Rightarrow> nat list \<Rightarrow> bool" where
  "matchAt s match =
     (if cursor s + length match > length (src s) then False
      else list_all (\<lambda>i. (of_char (src s ! (cursor s + i)) :: nat) = match ! i mod 256)
             [0..<length match])"

definition emit :: "Lexer \<Rightarrow> TokenType \<Rightarrow> Token \<times> Lexer" where
  "emit s t =
     (\<lparr>Type = t, IsTableIndicator = isTableIndicator s, Start = start s, End = cursor s,
       Digits = digits s, Quotes = quotes s, OutputValue = []\<rparr>,
      s\<lparr>start := cursor s, digits := [], quotes := [], isTableIndicator := False\<rparr>)"


subsection \<open>Numbers\<close>

text \<open>The loop of \<open>scanDecimalNumber\<close>; it reads the rune under the cursor each round.\<close>

function scanDecimalNumber_loop :: "Lexer \<Rightarrow> Lexer" where
  "scanDecimalNumber_loop s =
     (let ch = peek s in
      if isDigit ch \<or> ch = rune CHR ''.'' \<or> isExpontent ch then
        (if isExpontent ch then
           (let (ch', s1) = next' s
            in scanDecimalNumber_loop (if isLeadingSign ch' then snd (next' s1) else s1))
         else scanDecimalNumber_loop (snd (next' s)))
      else s)"
  by pat_completeness auto
termination
  by (relation "measure (\<lambda>s. length (src s) - cursor s)")
     (auto simp: peek_def lookAhead_def next'_def nextBy_def Let_def isDigit_def isExpontent_def
           split: if_splits)

declare scanDecimalNumber_loop.simps [simp del]

definition scanDecimalNumber :: "Lexer \<Rightarrow> Token \<times> Lexer" where
  "scanDecimalNumber s = emit (scanDecimalNumber_loop s) NUMBER"

definition scanNumberWithLeadingSign :: "Lexer \<Rightarrow> Token \<times> Lexer" where
  "scanNumberWithLeadingSign s =
     (let s = s\<lparr>start := cursor s\<rparr>;
          (_, s) = next' s
      in scanDecimalNumber s)"

text \<open>The loops \<open>for P(ch) { ch = s.next() }\<close> of the scanners, one function each.\<close>

function scanHexNumber_loop :: "Lexer \<Rightarrow> nat \<Rightarrow> Lexer" where
  "scanHexNumber_loop s ch =
     (if isDigit ch \<or> (rune CHR ''a'' \<le> ch \<and> ch \<le> rune CHR ''f'')
          \<or> (rune CHR ''A'' \<le> ch \<and> ch \<le> rune CHR ''F'')
      then (let (ch', s') = next' s in scanHexNumber_loop s' ch')
      else s)"
  by pat_completeness auto
termination
  by (relation "measures [\<lambda>(s, ch). length (src s) - cursor s, \<lambda>(s, ch). ch]")
     (auto simp: next'_def nextBy_def Let_def isDigit_def split: if_splits)

declare scanHexNumber_loop.simps [simp del]

definition scanHexNumber :: "Lexer \<Rightarrow> Token \<times> Lexer" where
  "scanHexNumber s = (let (ch, s) = nextBy s 2 in emit (scanHexNumber_loop s ch) NUMBER)"

function scanOctalNumber_loop :: "Lexer \<Rightarrow> nat \<Rightarrow> Lexer" where
  "scanOctalNumber_loop s ch =
     (if rune CHR ''0'' \<le> ch \<and> ch \<le> rune CHR ''7''
      then (let (ch', s') = next' s in scanOctalNumber_loop s' ch')
      else s)"
  by pat_completeness auto
termination
  by (relation "measures [\<lambda>(s, ch). length (src s) - cursor s, \<lambda>(s, ch). ch]")
     (auto simp: next'_def nextBy_def Let_def split: if_splits)

declare scanOctalNumber_loop.simps [simp del]

definition scanOctalNumber :: "Lexer \<Rightarrow> Token \<times> Lexer" where
  "scanOctalNumber s = (let (ch, s) = nextBy s 2 in emit (scanOctalNumber_loop s ch) NUMBER)"

definition scanNumberic :: "Lexer \<Rightarrow> nat \<Rightarrow> Token \<times> Lexer" where
  "scanNumberic s ch =
     (let s = s\<lparr>start := cursor s\<rparr>;
          nextCh = lookAhead s 1
      in if ch = rune CHR ''0'' \<and> (nextCh = rune CHR ''x'' \<or> nextCh = rune CHR ''X'')
           then scanHexNumber s
         else if ch = rune CHR ''0'' \<and> rune CHR ''0'' \<le> nextCh \<and> nextCh \<le> rune CHR ''7''
           then scanOctalNumber s
         else (let (_, s) = next' s in scanDecimalNumber s))"

definition scanNumber :: "Lexer \<Rightarrow> nat \<Rightarrow> Token \<times> Lexer" where
  "scanNumber s ch = scanNumberic (s\<lparr>start := cursor s\<rparr>) ch"

subsection \<open>Strings\<close>

function scanString_loop :: "Lexer \<Rightarrow> nat \<Rightarrow> bool \<Rightarrow> Token \<times> Lexer" where
  "scanString_loop s ch escaped =
     (if isEOF ch then emit s INCOMPLETE_STRING
      else if escaped then (let (ch', s') = next' s in scanString_loop s' ch' False)
      else if ch = 0x5C then (let (ch', s') = next' s in scanString_loop s' ch' True)
      else if ch = 0x27 then (let (_, s') = next' s in emit s' STRING)
      else (let (ch', s') = next' s in scanString_loop s' ch' False))"
  by pat_completeness auto
termination
  by (relation "measures [\<lambda>(s, ch, e). length (src s) - cursor s, \<lambda>(s, ch, e). ch]")
     (auto simp: next'_def nextBy_def Let_def isEOF_def split: if_splits)

declare scanString_loop.simps [simp del]

definition scanString :: "Lexer \<Rightarrow> Token \<times> Lexer" where
  "scanString s =
     (let s = s\<lparr>start := cursor s\<rparr>;
          (ch, s) = next' s
      in scanString_loop s ch False)"

lemma nextBy_eq:
  "nextBy s n =
     (if cursor s + n \<le> length (src s)
      then (lookAhead (s\<lparr>cursor := cursor s + n\<rparr>) 0, s\<lparr>cursor := cursor s + n\<rparr>)
      else (0, s))"
  by (auto simp: nextBy_def lookAhead_def Let_def)

lemma matchAt_bound: "matchAt s m \<Longrightarrow> cursor s + length m \<le> length (src s)"
  by (auto simp: matchAt_def split: if_splits)

lemma isIdentifier_pos: "isIdentifier L ch \<Longrightarrow> 0 < ch"
  by (auto simp: isIdentifier_def isLetter_def isAsciiLetter_def isDigit_def)

lemma isAsciiLetter_pos: "isAsciiLetter ch \<Longrightarrow> 0 < ch"
  by (auto simp: isAsciiLetter_def)

lemma isWhitespace_pos: "isWhitespace ch \<Longrightarrow> 0 < ch"
  by (auto simp: isWhitespace_def)

lemma isOperator_pos: "isOperator ch \<Longrightarrow> 0 < ch"
  by (auto simp: isOperator_def)

lemma isDigit_pos: "isDigit ch \<Longrightarrow> 0 < ch"
  by (auto simp: isDigit_def)

subsection \<open>Identifiers and keywords\<close>

text \<open>
  The identifier loop \<open>for isIdentifier(ch) { ...; ch = s.nextBy(utf8.RuneLen(ch)) }\<close>.
  \<open>ch\<close> is a rune that \<open>DecodeRuneInString\<close> returned, or 0, so \<open>RuneLen ch\<close> is positive
  (\<open>RuneLen_DecodeRuneInString\<close> below); the loop of the model stops where it is not.
\<close>

function scanIdentifier_rest :: "(nat \<Rightarrow> bool) \<Rightarrow> Lexer \<Rightarrow> nat \<Rightarrow> nat \<times> Lexer" where
  "scanIdentifier_rest L s ch =
     (if isIdentifier L ch \<and> 0 < RuneLen ch then
        (let s = (if isDigit ch then s\<lparr>digits := digits s @ [cursor s]\<rparr> else s);
             (ch', s') = nextBy s (nat (RuneLen ch))
         in scanIdentifier_rest L s' ch')
      else (ch, s))"
  by pat_completeness auto
termination
  by (relation "measures [\<lambda>(L, s, ch). length (src s) - cursor s, \<lambda>(L, s, ch). ch]")
     (auto simp: nextBy_eq dest: isIdentifier_pos split: if_splits)

declare scanIdentifier_rest.simps [simp del]

text \<open>
  The walk along the trie: the result is the node reached, the position of the last
  matched character, the current rune and the lexer.
\<close>

function scanIdentifier_trie ::
  "keywordTable \<Rightarrow> Lexer \<Rightarrow> trieNode \<Rightarrow> nat \<Rightarrow> nat \<Rightarrow> trieNode \<times> nat \<times> nat \<times> Lexer" where
  "scanIdentifier_trie K s node pos ch =
     (if isAsciiLetter ch \<or> ch = rune CHR ''_'' then
        (let upperCh = (if rune CHR ''a'' \<le> ch \<and> ch \<le> rune CHR ''z'' then ch - 32 else ch)
         in case nodeChildren K node upperCh of
              Some nxt \<Rightarrow> (let (ch', s') = next' s in scanIdentifier_trie K s' nxt (cursor s) ch')
            | None \<Rightarrow> (let (ch', s') = next' s in (keywordRoot, pos, ch', s')))
      else (node, pos, ch, s))"
  by pat_completeness auto
termination
  by (relation "measures [\<lambda>(K, s, node, pos, ch). length (src s) - cursor s,
                          \<lambda>(K, s, node, pos, ch). ch]")
     (auto simp: next'_def nextBy_eq dest: isAsciiLetter_pos split: if_splits)

declare scanIdentifier_trie.simps [simp del]

definition scanIdentifier ::
  "keywordTable \<Rightarrow> (nat \<Rightarrow> bool) \<Rightarrow> Lexer \<Rightarrow> nat \<Rightarrow> Token \<times> Lexer" where
  "scanIdentifier K L s ch =
     (let s = s\<lparr>start := cursor s\<rparr> in
      if ch > 127 then emit (snd (scanIdentifier_rest L s ch)) IDENT
      else
        (let (node, pos, ch, s) = scanIdentifier_trie K s keywordRoot (cursor s) ch in
         if nodeIsEnd K node \<and> (isPunctuation (peek s) \<or> isWhitespace (peek s) \<or> isEOF (peek s))
         then emit (s\<lparr>cursor := pos + 1, isTableIndicator := nodeIsTableIndicator K node\<rparr>)
                (nodeTokenType K node)
         else
           (let (ch, s) = scanIdentifier_rest L s ch
            in if ch = rune CHR ''('' then emit s FUNCTION else emit s IDENT)))"

subsection \<open>Quoted identifiers\<close>

function scanDoubleQuotedIdentifier_loop ::
  "nat \<Rightarrow> nat \<Rightarrow> Lexer \<Rightarrow> nat \<Rightarrow> Token \<times> Lexer" where
  "scanDoubleQuotedIdentifier_loop delimiter closingDelimiter s ch =
     (if ch = closingDelimiter then
        (let s = s\<lparr>quotes := quotes s @ [cursor s]\<rparr> in
         if matchAt s [closingDelimiter, rune CHR ''.'', delimiter] then
           (let s = s\<lparr>quotes := quotes s @ [cursor s + 2]\<rparr>;
                (ch', s') = nextBy s 3
            in scanDoubleQuotedIdentifier_loop delimiter closingDelimiter s' ch')
         else (let (_, s') = next' s in emit s' QUOTED_IDENT))
      else if isEOF ch then emit s ERROR
      else
        (let s = (if isDigit ch then s\<lparr>digits := digits s @ [cursor s]\<rparr> else s);
             (ch', s') = next' s
         in scanDoubleQuotedIdentifier_loop delimiter closingDelimiter s' ch'))"
  by pat_completeness auto
termination
  by (relation "measures [\<lambda>(d, c, s, ch). length (src s) - cursor s, \<lambda>(d, c, s, ch). ch]")
     (auto simp: next'_def nextBy_eq isEOF_def dest: matchAt_bound split: if_splits)

declare scanDoubleQuotedIdentifier_loop.simps [simp del]

definition scanDoubleQuotedIdentifier :: "Lexer \<Rightarrow> nat \<Rightarrow> Token \<times> Lexer" where
  "scanDoubleQuotedIdentifier s delimiter =
     (let closingDelimiter = (if delimiter = rune CHR ''['' then rune CHR '']'' else delimiter);
          s = s\<lparr>start := cursor s\<rparr>;
          s = s\<lparr>quotes := quotes s @ [cursor s]\<rparr>;
          (ch, s) = next' s
      in scanDoubleQuotedIdentifier_loop delimiter closingDelimiter s ch)"

subsection \<open>White space, operators, comments, punctuation\<close>

function scanWhitespace_loop :: "Lexer \<Rightarrow> nat \<Rightarrow> Lexer" where
  "scanWhitespace_loop s ch =
     (if isWhitespace ch then (let (ch', s') = next' s in scanWhitespace_loop s' ch') else s)"
  by pat_completeness auto
termination
  by (relation "measures [\<lambda>(s, ch). length (src s) - cursor s, \<lambda>(s, ch). ch]")
     (auto simp: next'_def nextBy_eq dest: isWhitespace_pos split: if_splits)

declare scanWhitespace_loop.simps [simp del]

definition scanWhitespace :: "Lexer \<Rightarrow> Token \<times> Lexer" where
  "scanWhitespace s =
     (let s = s\<lparr>start := cursor s\<rparr>;
          (ch, s) = next' s
      in emit (scanWhitespace_loop s ch) WS)"

function scanOperator_loop :: "Lexer \<Rightarrow> nat \<Rightarrow> nat \<Rightarrow> Lexer" where
  "scanOperator_loop s lastCh ch =
     (if isOperator ch
          \<and> \<not> (lastCh = rune CHR ''='' \<and> (ch = rune CHR ''?'' \<or> ch = rune CHR ''@''))
      then (let (ch', s') = next' s in scanOperator_loop s' ch ch')
      else s)"
  by pat_completeness auto
termination
  by (relation "measures [\<lambda>(s, l, ch). length (src s) - cursor s, \<lambda>(s, l, ch). ch]")
     (auto simp: next'_def nextBy_eq dest: isOperator_pos split: if_splits)

declare scanOperator_loop.simps [simp del]

definition scanOperator :: "Lexer \<Rightarrow> nat \<Rightarrow> Token \<times> Lexer" where
  "scanOperator s lastCh =
     (let s = s\<lparr>start := cursor s\<rparr>;
          (ch, s) = next' s
      in if lastCh = rune CHR ''-'' \<and> ch = rune CHR ''>'' then
           (let (ch, s) = next' s
            in if ch = rune CHR ''>'' then emit (snd (next' s)) JSON_OP else emit s JSON_OP)
         else if lastCh = rune CHR ''#'' \<and> ch = rune CHR ''>'' then
           (let (ch, s) = next' s
            in if ch = rune CHR ''>'' then emit (snd (next' s)) JSON_OP else emit s JSON_OP)
         else if lastCh = rune CHR ''#'' \<and> ch = rune CHR ''-'' then emit (snd (next' s)) JSON_OP
         else if lastCh = rune CHR ''?'' \<and> ch = rune CHR ''|'' then emit (snd (next' s)) JSON_OP
         else if lastCh = rune CHR ''?'' \<and> ch = rune CHR ''&'' then emit (snd (next' s)) JSON_OP
         else if lastCh = rune CHR ''<'' \<and> ch = rune CHR ''@'' then emit (snd (next' s)) JSON_OP
         else emit (scanOperator_loop s lastCh ch) OPERATOR)"

definition scanWildcard :: "Lexer \<Rightarrow> Token \<times> Lexer" where
  "scanWildcard s = (let s = s\<lparr>start := cursor s\<rparr> in emit (snd (next' s)) WILDCARD)"

function scanSingleLineComment_loop :: "Lexer \<Rightarrow> nat \<Rightarrow> Lexer" where
  "scanSingleLineComment_loop s ch =
     (if ch \<noteq> 10 \<and> \<not> isEOF ch
      then (let (ch', s') = next' s in scanSingleLineComment_loop s' ch')
      else s)"
  by pat_completeness auto
termination
  by (relation "measures [\<lambda>(s, ch). length (src s) - cursor s, \<lambda>(s, ch). ch]")
     (auto simp: next'_def nextBy_eq isEOF_def split: if_splits)

declare scanSingleLineComment_loop.simps [simp del]

definition scanSingleLineComment :: "Lexer \<Rightarrow> Token \<times> Lexer" where
  "scanSingleLineComment s =
     (let s = s\<lparr>start := cursor s\<rparr>;
          (ch, s) = nextBy s 2
      in emit (scanSingleLineComment_loop s ch) COMMENT)"

function scanMultiLineComment_loop :: "Lexer \<Rightarrow> nat \<Rightarrow> Token \<times> Lexer" where
  "scanMultiLineComment_loop s ch =
     (if ch = rune CHR ''*'' \<and> lookAhead s 1 = rune CHR ''/''
        then emit (snd (nextBy s 2)) MULTILINE_COMMENT
      else if isEOF ch then emit s ERROR
      else (let (ch', s') = next' s in scanMultiLineComment_loop s' ch'))"
  by pat_completeness auto
termination
  by (relation "measures [\<lambda>(s, ch). length (src s) - cursor s, \<lambda>(s, ch). ch]")
     (auto simp: next'_def nextBy_eq isEOF_def split: if_splits)

declare scanMultiLineComment_loop.simps [simp del]

definition scanMultiLineComment :: "Lexer \<Rightarrow> Token \<times> Lexer" where
  "scanMultiLineComment s =
     (let s = s\<lparr>start := cursor s\<rparr>;
          (ch, s) = nextBy s 2
      in scanMultiLineComment_loop s ch)"

definition scanPunctuation :: "Lexer \<Rightarrow> Token \<times> Lexer" where
  "scanPunctuation s = (let s = s\<lparr>start := cursor s\<rparr> in emit (snd (next' s)) PUNCTUATION)"

subsection \<open>Dollar-quoted strings, parameters, system variables\<close>

text \<open>The tag loop \<open>for s.cursor < len(s.src) && ch != '$' { ch = s.next() }\<close>.\<close>

function scanDollarQuotedString_tag :: "Lexer \<Rightarrow> nat \<Rightarrow> Lexer" where
  "scanDollarQuotedString_tag s ch =
     (if cursor s < length (src s) \<and> ch \<noteq> rune CHR ''$''
      then (let (ch', s') = next' s in scanDollarQuotedString_tag s' ch')
      else s)"
  by pat_completeness auto
termination
  by (relation "measure (\<lambda>(s, ch). length (src s) - cursor s)")
     (auto simp: next'_def nextBy_eq split: if_splits)

declare scanDollarQuotedString_tag.simps [simp del]

function scanDollarQuotedString_body :: "Lexer \<Rightarrow> string \<Rightarrow> Token \<times> Lexer" where
  "scanDollarQuotedString_body s tag =
     (if cursor s < length (src s) then
        (if matchAt s (runes_of tag) then
           (let (_, s') = nextBy s (length tag)
            in if tag = ''$func$'' then emit s' DOLLAR_QUOTED_FUNCTION
               else emit s' DOLLAR_QUOTED_STRING)
         else scanDollarQuotedString_body (snd (next' s)) tag)
      else emit s ERROR)"
  by pat_completeness auto
termination
  by (relation "measure (\<lambda>(s, tag). length (src s) - cursor s)")
     (auto simp: next'_def nextBy_eq split: if_splits)

declare scanDollarQuotedString_body.simps [simp del]

text \<open>
  \<open>Scan\<close> calls \<open>scanDollarQuotedString\<close> with a \<open>$\<close> under the cursor, so the first
  \<open>next\<close> advances and \<open>tagStart - 1\<close> is the start of the token.
\<close>

definition scanDollarQuotedString :: "Lexer \<Rightarrow> Token \<times> Lexer" where
  "scanDollarQuotedString s =
     (let s = s\<lparr>start := cursor s\<rparr>;
          (ch, s) = next' s;
          tagStart = cursor s;
          s = scanDollarQuotedString_tag s ch;
          (_, s) = next' s;
          tag = take (cursor s - (tagStart - 1)) (drop (tagStart - 1) (src s))
      in scanDollarQuotedString_body s tag)"

function scanPositionalParameter_loop :: "Lexer \<Rightarrow> nat \<Rightarrow> Lexer" where
  "scanPositionalParameter_loop s ch =
     (if \<not> isDigit ch then s
      else (let (ch', s') = next' s in scanPositionalParameter_loop s' ch'))"
  by pat_completeness auto
termination
  by (relation "measures [\<lambda>(s, ch). length (src s) - cursor s, \<lambda>(s, ch). ch]")
     (auto simp: next'_def nextBy_eq dest: isDigit_pos split: if_splits)

declare scanPositionalParameter_loop.simps [simp del]

definition scanPositionalParameter :: "Lexer \<Rightarrow> Token \<times> Lexer" where
  "scanPositionalParameter s =
     (let s = s\<lparr>start := cursor s\<rparr>;
          (ch, s) = nextBy s 2
      in emit (scanPositionalParameter_loop s ch) POSITIONAL_PARAMETER)"

lemma isAlphaNumeric_pos: "isAlphaNumeric L ch \<Longrightarrow> 0 < ch"
  by (auto simp: isAlphaNumeric_def isLetter_def isAsciiLetter_def isDigit_def)

text \<open>The loop \<open>for isAlphaNumeric(ch) { ch = s.next() }\<close> of \<open>scanBindParameter\<close> and of
  \<open>scanSystemVariable\<close>.\<close>

function scanAlphaNumeric_loop :: "(nat \<Rightarrow> bool) \<Rightarrow> Lexer \<Rightarrow> nat \<Rightarrow> Lexer" where
  "scanAlphaNumeric_loop L s ch =
     (if \<not> isAlphaNumeric L ch then s
      else (let (ch', s') = next' s in scanAlphaNumeric_loop L s' ch'))"
  by pat_completeness auto
termination
  by (relation "measures [\<lambda>(L, s, ch). length (src s) - cursor s, \<lambda>(L, s, ch). ch]")
     (auto simp: next'_def nextBy_eq dest: isAlphaNumeric_pos split: if_splits)

declare scanAlphaNumeric_loop.simps [simp del]

definition scanBindParameter :: "(nat \<Rightarrow> bool) \<Rightarrow> Lexer \<Rightarrow> Token \<times> Lexer" where
  "scanBindParameter L s =
     (let s = s\<lparr>start := cursor s\<rparr>;
          (ch, s) = nextBy s 2
      in emit (scanAlphaNumeric_loop L s ch) BIND_PARAMETER)"

definition scanSystemVariable :: "(nat \<Rightarrow> bool) \<Rightarrow> Lexer \<Rightarrow> Token \<times> Lexer" where
  "scanSystemVariable L s =
     (let s = s\<lparr>start := cursor s\<rparr>;
          (ch, s) = nextBy s 2
      in if \<not> isAlphaNumeric L ch then emit s ERROR
         else emit (scanAlphaNumeric_loop L s ch) SYSTEM_VARIABLE)"

subsection \<open>Scan\<close>

text \<open>
  The cases of the \<open>switch\<close> in their order. A backquote outside MySQL falls through into
  the body of the \<open>#\<close> case, an \<open>@\<close> that opens nothing into the body of the operator
  case. The \<open>default\<close> case emits \<open>UNKNOWN\<close> and leaves the cursor where it is.
\<close>

definition scanHash :: "keywordTable \<Rightarrow> (nat \<Rightarrow> bool) \<Rightarrow> Lexer \<Rightarrow> nat \<Rightarrow> Token \<times> Lexer" where
  "scanHash K L s ch =
     (if DBMS s = DBMSSQLServer then scanIdentifier K L s ch
      else if DBMS s = DBMSMySQL then scanSingleLineComment s
      else scanOperator s ch)"

definition Scan :: "keywordTable \<Rightarrow> (nat \<Rightarrow> bool) \<Rightarrow> Lexer \<Rightarrow> Token \<times> Lexer" where
  "Scan K L s =
     (let ch = peek s in
      if isWhitespace ch then scanWhitespace s
      else if isLetter L ch then scanIdentifier K L s ch
      else if isDoubleQuote ch then scanDoubleQuotedIdentifier s 0x22
      else if isSingleQuote ch then scanString s
      else if isSingleLineComment ch (lookAhead s 1) then scanSingleLineComment s
      else if isMultiLineComment ch (lookAhead s 1) then scanMultiLineComment s
      else if isLeadingSign ch then
        (let nextCh = lookAhead s 1
         in if isDigit nextCh \<or> nextCh = rune CHR ''.'' then scanNumberWithLeadingSign s
            else scanOperator s ch)
      else if isDigit ch then scanNumber s ch
      else if isWildcard ch then scanWildcard s
      else if ch = rune CHR ''$'' then
        (if isDigit (lookAhead s 1) then scanPositionalParameter s
         else if DBMS s = DBMSSQLServer \<and> isLetter L (lookAhead s 1) then scanIdentifier K L s ch
         else scanDollarQuotedString s)
      else if ch = rune CHR '':'' then
        (if DBMS s = DBMSOracle \<and> isAlphaNumeric L (lookAhead s 1) then scanBindParameter L s
         else scanOperator s ch)
      else if ch = 0x60 then
        (if DBMS s = DBMSMySQL then scanDoubleQuotedIdentifier s 0x60
         else scanHash K L s ch)
      else if ch = rune CHR ''#'' then scanHash K L s ch
      else if ch = rune CHR ''@'' then
        (if lookAhead s 1 = rune CHR ''@'' then
           (if isAlphaNumeric L (lookAhead s 2) then scanSystemVariable L s
            else (let s = s\<lparr>start := cursor s\<rparr>; (_, s) = nextBy s 2 in emit s JSON_OP))
         else if isAlphaNumeric L (lookAhead s 1) then
           (if DBMS s = DBMSSnowflake then scanIdentifier K L s ch
            else scanBindParameter L s)
         else if lookAhead s 1 = rune CHR ''?'' \<or> lookAhead s 1 = rune CHR ''>'' then
           (let s = s\<lparr>start := cursor s\<rparr>; (_, s) = nextBy s 2 in emit s JSON_OP)
         else scanOperator s ch)
      else if isOperator ch then scanOperator s ch
      else if isPunctuation ch then
        (if ch = rune CHR ''['' \<and> DBMS s = DBMSSQLServer then scanDoubleQuotedIdentifier s 0x5B
         else scanPunctuation s)
      else if isEOF ch then emit s EOF
      else emit s UNKNOWN)"

section \<open>The normalizer (normalizer.go)\<close>

record normalizerConfig =
  CollectTables :: bool
  CollectCommands :: bool
  CollectComments :: bool
  CollectProcedure :: bool
  KeepSQLAlias :: bool
  UppercaseKeywords :: bool
  RemoveSpaceBetweenParentheses :: bool
  KeepTrailingSemicolon :: bool
  KeepIdentifierQuotation :: bool

record StatementMetadata =
  Size :: nat
  Tables :: "string list"
  Comments :: "string list"
  Commands :: "string list"
  Procedures :: "string list"

record groupablePlaceholder =
  groupable :: bool

record headState =
  readFirstNonWSNonComment :: bool
  inLeadingParenthesesExpression :: bool
  foundLeadingExpressionInParentheses :: bool
  standaloneExpressionInParentheses :: bool
  expressionInParentheses :: string

text \<open>A run-time panic of the Go program ends the call; it is the \<open>Inl\<close> of a result.\<close>

datatype error = NilPointerDereference | SliceBoundsOutOfRange

definition StringPlaceholder :: string where
  "StringPlaceholder = ''?''"

definition NumberPlaceholder :: string where
  "NumberPlaceholder = ''?''"

subsection \<open>Library functions on strings\<close>

text \<open>
  \<open>strings.ToUpper\<close> on ASCII text. The normalizer applies it to the text of \<open>COMMAND\<close>,
  \<open>KEYWORD\<close> and \<open>ALIAS_INDICATOR\<close> tokens only, which the trie walk of \<open>scanIdentifier\<close>
  builds from ASCII letters and underscores.
\<close>

definition ToUpper :: "string \<Rightarrow> string" where
  "ToUpper s =
     map (\<lambda>c. if rune CHR ''a'' \<le> rune c \<and> rune c \<le> rune CHR ''z''
               then char_of (rune c - 32) else c) s"

text \<open>\<open>strings.TrimSuffix\<close>.\<close>

definition TrimSuffix :: "string \<Rightarrow> string \<Rightarrow> string" where
  "TrimSuffix s suffix =
     (if length suffix \<le> length s \<and> drop (length s - length suffix) s = suffix
      then take (length s - length suffix) s else s)"

text \<open>\<open>unicode.IsSpace\<close>.\<close>

definition IsSpace :: "nat \<Rightarrow> bool" where
  "IsSpace r \<longleftrightarrow>
     (9 \<le> r \<and> r \<le> 13) \<or> r = 0x20 \<or> r = 0x85 \<or> r = 0xA0 \<or> r = 0x1680
     \<or> (0x2000 \<le> r \<and> r \<le> 0x200A) \<or> r = 0x2028 \<or> r = 0x2029 \<or> r = 0x202F
     \<or> r = 0x205F \<or> r = 0x3000"

text \<open>\<open>utf8.DecodeLastRuneInString\<close>: the last rune of the bytes and its width.\<close>

definition RuneStart :: "nat \<Rightarrow> bool" where
  "RuneStart b \<longleftrightarrow> \<not> (0x80 \<le> b \<and> b \<le> 0xBF)"

definition DecodeLastRuneInString :: "string \<Rightarrow> nat \<times> nat" where
  "DecodeLastRuneInString s =
     (let end = length s in
      if end = 0 then (RuneError, 0)
      else if (rune (s ! (end - 1))) < 0x80 then (rune (s ! (end - 1)), 1)
      else
        (let lim = end - 4;
             cands = filter (\<lambda>i. RuneStart (rune (s ! i))) (rev [lim..<end - 1]);
             start = (case cands of i # _ \<Rightarrow> i | [] \<Rightarrow> lim - 1);
             (r, size) = DecodeRuneInString (drop start s)
         in if start + size \<noteq> end then (RuneError, 1) else (r, size)))"

text \<open>\<open>strings.TrimSpace\<close>: white space in the sense of \<open>unicode.IsSpace\<close> is cut from
  both ends.\<close>

function TrimLeftSpace :: "string \<Rightarrow> string" where
  "TrimLeftSpace s =
     (if s = [] then []
      else if IsSpace (fst (DecodeRuneInString s))
        then TrimLeftSpace (drop (max 1 (snd (DecodeRuneInString s))) s)
      else s)"
  by pat_completeness auto
termination
  by (relation "measure length") auto

declare TrimLeftSpace.simps [simp del]

function TrimRightSpace :: "string \<Rightarrow> string" where
  "TrimRightSpace s =
     (if s = [] then []
      else if IsSpace (fst (DecodeLastRuneInString s))
        then TrimRightSpace (take (length s - max 1 (snd (DecodeLastRuneInString s))) s)
      else s)"
  by pat_completeness auto
termination
  by (relation "measure length") auto

declare TrimRightSpace.simps [simp del]

definition TrimSpace :: "string \<Rightarrow> string" where
  "TrimSpace s = TrimRightSpace (TrimLeftSpace s)"

text \<open>
  Modelled from the spec: \<open>trimQuotes\<close> (its declaration is not part of the sources at
  hand) gives the unquoted text of a quoted identifier: the text of the token without
  the characters at the quote offsets that the lexer recorded.
\<close>

definition trimQuotes :: "string \<Rightarrow> Token \<Rightarrow> string" where
  "trimQuotes source token =
     map (\<lambda>i. source ! i) (filter (\<lambda>i. i \<notin> set (Quotes token)) [Start token..<End token])"

subsection \<open>Metadata collection\<close>

definition collectMetadata ::
  "normalizerConfig \<Rightarrow> string \<Rightarrow> Token \<Rightarrow> LastValueToken option \<Rightarrow> StatementMetadata
     \<Rightarrow> (string \<rightharpoonup> bool) \<Rightarrow> Token \<times> StatementMetadata \<times> (string \<rightharpoonup> bool)" where
  "collectMetadata n source token lastValueToken statementMetadata ctes =
     (if CollectComments n \<and> (Type token = COMMENT \<or> Type token = MULTILINE_COMMENT) then
        (token,
         statementMetadata\<lparr>Comments := Comments statementMetadata @ [String token source]\<rparr>,
         ctes)
      else if Type token = COMMAND then
        (if CollectCommands n then
           (token,
            statementMetadata\<lparr>Commands :=
              Commands statementMetadata @ [ToUpper (String token source)]\<rparr>,
            ctes)
         else (token, statementMetadata, ctes))
      else if Type token = IDENT \<or> Type token = QUOTED_IDENT \<or> Type token = FUNCTION then
        (let tokenVal =
               (if Type token = QUOTED_IDENT then trimQuotes source token
                else String token source);
             token =
               (if Type token = QUOTED_IDENT \<and> \<not> KeepIdentifierQuotation n
                then SetOutputValue token tokenVal else token)
         in case lastValueToken of
              None \<Rightarrow> (token, statementMetadata, ctes)
            | Some lv \<Rightarrow>
                if lvType lv = CTE_INDICATOR then (token, statementMetadata, ctes(tokenVal \<mapsto> True))
                else if CollectTables n \<and> lvIsTableIndicator lv then
                  (if ctes tokenVal = None
                   then (token,
                         statementMetadata\<lparr>Tables := Tables statementMetadata @ [tokenVal]\<rparr>,
                         ctes)
                   else (token, statementMetadata, ctes))
                else if CollectProcedure n \<and> lvType lv = PROC_INDICATOR then
                  (token,
                   statementMetadata\<lparr>Procedures := Procedures statementMetadata @ [tokenVal]\<rparr>,
                   ctes)
                else (token, statementMetadata, ctes))
      else (token, statementMetadata, ctes))"

subsection \<open>Writing the output\<close>

definition writeToken :: "normalizerConfig \<Rightarrow> TokenType \<Rightarrow> string \<Rightarrow> string \<Rightarrow> string" where
  "writeToken n tokenType tokenValue normalizedSQLBuilder =
     (if UppercaseKeywords n \<and> (tokenType = COMMAND \<or> tokenType = KEYWORD)
      then normalizedSQLBuilder @ ToUpper tokenValue
      else normalizedSQLBuilder @ tokenValue)"

definition appendWhitespace ::
  "normalizerConfig \<Rightarrow> string \<Rightarrow> Token \<Rightarrow> LastValueToken option \<Rightarrow> string \<Rightarrow> string" where
  "appendWhitespace n source token lastValueToken normalizedSQLBuilder =
     (if RemoveSpaceBetweenParentheses n
          \<and> (case lastValueToken of
                None \<Rightarrow> False
              | Some lv \<Rightarrow> lvType lv = FUNCTION \<or> lvValue lv = ''('' \<or> lvValue lv = ''['')
        then normalizedSQLBuilder
      else if RemoveSpaceBetweenParentheses n
          \<and> (String token source = '')'' \<or> String token source = '']'')
        then normalizedSQLBuilder
      else if String token source = '','' then normalizedSQLBuilder
      else if String token source = '';'' then normalizedSQLBuilder
      else if String token source = ''=''
          \<and> (case lastValueToken of None \<Rightarrow> False | Some lv \<Rightarrow> lvValue lv = '':'')
        then normalizedSQLBuilder
      else normalizedSQLBuilder @ '' '')"

text \<open>
  \<open>isObfuscatedValueGroupable\<close> reads \<open>lastValueToken.Value\<close> in its first and in its last
  test without asking whether \<open>lastValueToken\<close> is nil; the result is the answer, the
  placeholder state and the builder.
\<close>

definition isObfuscatedValueGroupable ::
  "normalizerConfig \<Rightarrow> string \<Rightarrow> Token \<Rightarrow> LastValueToken option \<Rightarrow> groupablePlaceholder
     \<Rightarrow> string \<Rightarrow> error + (bool \<times> groupablePlaceholder \<times> string)" where
  "isObfuscatedValueGroupable n source token lastValueToken g normalizedSQLBuilder =
     (let tok = String token source in
      case (if tok = NumberPlaceholder \<or> tok = StringPlaceholder then
              (case lastValueToken of
                 None \<Rightarrow> Inl NilPointerDereference
               | Some lv \<Rightarrow>
                   if lvValue lv = ''('' \<or> lvValue lv = ''['' then Inr (False, g\<lparr>groupable := True\<rparr>)
                   else if lvValue lv = '','' \<and> groupable g then Inr (True, g)
                   else Inr (False, g))
            else Inr (False, g)) of
        Inl e \<Rightarrow> Inl e
      | Inr (True, g) \<Rightarrow> Inr (True, g, normalizedSQLBuilder)
      | Inr (False, g) \<Rightarrow>
          if (case lastValueToken of
                None \<Rightarrow> False
              | Some lv \<Rightarrow> lvValue lv = NumberPlaceholder \<or> lvValue lv = StringPlaceholder)
             \<and> tok = '','' \<and> groupable g
            then Inr (True, g, normalizedSQLBuilder)
          else if groupable g \<and> (tok = '')'' \<or> tok = '']'')
            then Inr (False, g\<lparr>groupable := False\<rparr>, normalizedSQLBuilder)
          else if groupable g \<and> tok \<noteq> NumberPlaceholder \<and> tok \<noteq> StringPlaceholder then
            (case lastValueToken of
               None \<Rightarrow> Inl NilPointerDereference
             | Some lv \<Rightarrow>
                 if lvValue lv = '',''
                 then Inr (False, g, normalizedSQLBuilder @ lvValue lv)
                 else Inr (False, g, normalizedSQLBuilder))
          else Inr (False, g, normalizedSQLBuilder))"

subsection \<open>normalizeSQL\<close>

text \<open>
  One call of \<open>normalizeSQL\<close>. \<open>normalizeBody\<close> stands for the recursive call \<open>n.Normalize\<close> on the
  body of a dollar-quoted function: \<open>None\<close> when it does not return, a panic or the
  normalized text otherwise. The result is the token (its output value may have been
  set), the main builder, the placeholder state and the head state.
\<close>

definition writeOut ::
  "normalizerConfig \<Rightarrow> string \<Rightarrow> Token \<Rightarrow> LastValueToken option \<Rightarrow> string
     \<Rightarrow> groupablePlaceholder \<Rightarrow> headState
     \<Rightarrow> Token \<times> string \<times> groupablePlaceholder \<times> headState" where
  "writeOut n source token lastValueToken normalizedSQLBuilder g h =
     (if inLeadingParenthesesExpression h then
        (let e = appendWhitespace n source token lastValueToken (expressionInParentheses h);
             e = writeToken n (Type token) (String token source) e;
             h = h\<lparr>expressionInParentheses := e\<rparr>
         in if Type token = PUNCTUATION \<and> String token source = '')''
            then (token, normalizedSQLBuilder, g,
                  h\<lparr>inLeadingParenthesesExpression := False,
                    foundLeadingExpressionInParentheses := True\<rparr>)
            else (token, normalizedSQLBuilder, g, h))
      else
        (let b = appendWhitespace n source token lastValueToken normalizedSQLBuilder;
             b = writeToken n (Type token) (String token source) b
         in (token, b, g, h)))"

definition normalizeSQL ::
  "normalizerConfig \<Rightarrow> (string \<Rightarrow> (error + string \<times> StatementMetadata) option) \<Rightarrow> string
     \<Rightarrow> Token \<Rightarrow> LastValueToken option \<Rightarrow> string \<Rightarrow> groupablePlaceholder \<Rightarrow> headState
     \<Rightarrow> (error + Token \<times> string \<times> groupablePlaceholder \<times> headState) option" where
  "normalizeSQL n normalizeBody source token lastValueToken normalizedSQLBuilder g h =
     (if Type token \<noteq> WS \<and> Type token \<noteq> COMMENT \<and> Type token \<noteq> MULTILINE_COMMENT then
        (let h =
               (if \<not> readFirstNonWSNonComment h then
                  (if Type token = PUNCTUATION \<and> String token source = ''(''
                   then h\<lparr>readFirstNonWSNonComment := True,
                          inLeadingParenthesesExpression := True,
                          standaloneExpressionInParentheses := True\<rparr>
                   else h\<lparr>readFirstNonWSNonComment := True\<rparr>)
                else h)
         in if Type token = EOF then
              (if standaloneExpressionInParentheses h
               then Some (Inr (token, normalizedSQLBuilder @ expressionInParentheses h, g, h))
               else Some (Inr (token, normalizedSQLBuilder, g, h)))
            else
              (let h = (if foundLeadingExpressionInParentheses h
                        then h\<lparr>standaloneExpressionInParentheses := False\<rparr> else h);
                   dollar =
                     (if Type token = DOLLAR_QUOTED_FUNCTION
                         \<and> String token source \<noteq> StringPlaceholder then
                        (if length (String token source) < 12
                         then Some (Inl SliceBoundsOutOfRange)
                         else
                           (case normalizeBody (take (length (String token source) - 12)
                                              (drop 6 (String token source))) of
                              None \<Rightarrow> None
                            | Some (Inl e) \<Rightarrow> Some (Inl e)
                            | Some (Inr (normalizedQuotedFunc, _)) \<Rightarrow>
                                Some (Inr (SetOutputValue token
                                             (''$func$'' @ normalizedQuotedFunc @ ''$func$'')))))
                      else Some (Inr token))
               in case dollar of
                    None \<Rightarrow> None
                  | Some (Inl e) \<Rightarrow> Some (Inl e)
                  | Some (Inr token) \<Rightarrow>
                      if \<not> KeepSQLAlias n \<and> Type token = ALIAS_INDICATOR
                        then Some (Inr (token, normalizedSQLBuilder, g, h))
                      else if \<not> KeepSQLAlias n
                          \<and> (case lastValueToken of
                                None \<Rightarrow> False
                              | Some lv \<Rightarrow> lvType lv = ALIAS_INDICATOR)
                          \<and> Type token = IDENT
                        then Some (Inr (token, normalizedSQLBuilder, g, h))
                      else
                        (let b =
                               (case lastValueToken of
                                  None \<Rightarrow> normalizedSQLBuilder
                                | Some lv \<Rightarrow>
                                    if \<not> KeepSQLAlias n \<and> lvType lv = ALIAS_INDICATOR then
                                      writeToken n (lvType lv) (lvValue lv)
                                        (appendWhitespace n source token lastValueToken
                                           normalizedSQLBuilder)
                                    else normalizedSQLBuilder)
                         in case isObfuscatedValueGroupable n source token lastValueToken g b of
                              Inl e \<Rightarrow> Some (Inl e)
                            | Inr (True, g, b) \<Rightarrow> Some (Inr (token, b, g, h))
                            | Inr (False, g, b) \<Rightarrow>
                                Some (Inr (writeOut n source token lastValueToken b g h)))))
      else Some (Inr (token, normalizedSQLBuilder, g, h)))"

subsection \<open>Deduplication and trimming\<close>

text \<open>The loop of \<open>dedupeCollectedMetadata\<close> with its set \<open>metadataSeen\<close>.\<close>

fun dedupeCollectedMetadata_loop ::
  "string list \<Rightarrow> (string \<rightharpoonup> unit) \<Rightarrow> string list \<Rightarrow> nat \<Rightarrow> string list \<times> nat" where
  "dedupeCollectedMetadata_loop [] metadataSeen dedupedMetadata sz =
     (dedupedMetadata, sz)"
| "dedupeCollectedMetadata_loop (m # metadata) metadataSeen dedupedMetadata sz =
     (if metadataSeen m = None
      then dedupeCollectedMetadata_loop metadata (metadataSeen(m \<mapsto> ()))
             (dedupedMetadata @ [m]) (sz + length m)
      else dedupeCollectedMetadata_loop metadata metadataSeen dedupedMetadata sz)"

definition dedupeCollectedMetadata :: "string list \<Rightarrow> string list \<times> nat" where
  "dedupeCollectedMetadata metadata = dedupeCollectedMetadata_loop metadata Map.empty [] 0"

definition dedupeStatementMetadata :: "StatementMetadata \<Rightarrow> StatementMetadata" where
  "dedupeStatementMetadata info =
     (let (tables, tablesSize) = dedupeCollectedMetadata (Tables info);
          (comments, commentsSize) = dedupeCollectedMetadata (Comments info);
          (commands, commandsSize) = dedupeCollectedMetadata (Commands info);
          (procedures, procedureSize) = dedupeCollectedMetadata (Procedures info)
      in info\<lparr>Tables := tables, Comments := comments, Commands := commands,
              Procedures := procedures,
              Size := Size info + (tablesSize + commentsSize + commandsSize + procedureSize)\<rparr>)"

definition trimNormalizedSQL :: "normalizerConfig \<Rightarrow> string \<Rightarrow> string" where
  "trimNormalizedSQL n normalizedSQL =
     TrimSpace (if \<not> KeepTrailingSemicolon n then TrimSuffix normalizedSQL '';''
                else normalizedSQL)"

subsection \<open>Normalize\<close>

text \<open>
  The variables of \<open>Normalize\<close> that its loop changes. The loop runs until the lexer
  returns \<open>EOF\<close>, which an input can keep it from doing; \<open>fuel\<close> bounds the number of
  rounds, of the call and of each call it makes on a function body, and \<open>None\<close> says
  that the fuel did not suffice.
\<close>

record NormalizeState =
  lexer :: Lexer
  normalizedSQLBuilder :: string
  statementMetadata :: StatementMetadata
  groupablePlaceholderState :: groupablePlaceholder
  headStateVar :: headState
  ctes :: "string \<rightharpoonup> bool"
  lastValueToken :: "LastValueToken option"

definition Normalize_init :: "string \<Rightarrow> DBMSType \<Rightarrow> NormalizeState" where
  "Normalize_init input dbms =
     \<lparr>lexer = New input dbms,
      normalizedSQLBuilder = [],
      statementMetadata = \<lparr>Size = 0, Tables = [], Comments = [], Commands = [], Procedures = []\<rparr>,
      groupablePlaceholderState = \<lparr>groupable = False\<rparr>,
      headStateVar =
        \<lparr>readFirstNonWSNonComment = False, inLeadingParenthesesExpression = False,
         foundLeadingExpressionInParentheses = False,
         standaloneExpressionInParentheses = False, expressionInParentheses = []\<rparr>,
      ctes = Map.empty,
      lastValueToken = None\<rparr>"

definition Normalize_finish ::
  "normalizerConfig \<Rightarrow> NormalizeState \<Rightarrow> string \<times> StatementMetadata" where
  "Normalize_finish n st =
     (trimNormalizedSQL n (normalizedSQLBuilder st),
      dedupeStatementMetadata (statementMetadata st))"

text \<open>One round of the loop: the state after it and whether the token was \<open>EOF\<close>.\<close>

definition Normalize_round ::
  "keywordTable \<Rightarrow> (nat \<Rightarrow> bool) \<Rightarrow> normalizerConfig
     \<Rightarrow> (string \<Rightarrow> (error + string \<times> StatementMetadata) option) \<Rightarrow> NormalizeState
     \<Rightarrow> (error + bool \<times> NormalizeState) option" where
  "Normalize_round K L n normalizeBody st =
     (let input = src (lexer st);
          (token, lx) = Scan K L (lexer st);
          (token, md, cs) =
            collectMetadata n input token (lastValueToken st) (statementMetadata st) (ctes st)
      in case normalizeSQL n normalizeBody input token (lastValueToken st)
                (normalizedSQLBuilder st) (groupablePlaceholderState st) (headStateVar st) of
           None \<Rightarrow> None
         | Some (Inl e) \<Rightarrow> Some (Inl e)
         | Some (Inr (token, b, g, h)) \<Rightarrow>
             Some (Inr (Type token = EOF,
               st\<lparr>lexer := lx, normalizedSQLBuilder := b, statementMetadata := md,
                  groupablePlaceholderState := g, headStateVar := h, ctes := cs,
                  lastValueToken :=
                    (if Type token \<noteq> EOF \<and> isValueToken token
                     then Some (GetLastValueToken token input)
                     else lastValueToken st)\<rparr>)))"

fun Normalize_loop ::
  "keywordTable \<Rightarrow> (nat \<Rightarrow> bool) \<Rightarrow> normalizerConfig \<Rightarrow> DBMSType \<Rightarrow> nat \<Rightarrow> NormalizeState
     \<Rightarrow> (error + NormalizeState) option"
and Normalize ::
  "keywordTable \<Rightarrow> (nat \<Rightarrow> bool) \<Rightarrow> normalizerConfig \<Rightarrow> DBMSType \<Rightarrow> nat \<Rightarrow> string
     \<Rightarrow> (error + string \<times> StatementMetadata) option" where
  "Normalize_loop K L n dbms 0 st = None"
| "Normalize_loop K L n dbms (Suc fuel) st =
     (case Normalize_round K L n (\<lambda>quotedFunc. Normalize K L n dbms fuel quotedFunc) st of
        None \<Rightarrow> None
      | Some (Inl e) \<Rightarrow> Some (Inl e)
      | Some (Inr (True, st')) \<Rightarrow> Some (Inr st')
      | Some (Inr (False, st')) \<Rightarrow> Normalize_loop K L n dbms fuel st')"
| "Normalize K L n dbms fuel input =
     (case Normalize_loop K L n dbms fuel (Normalize_init input dbms) of
        None \<Rightarrow> None
      | Some (Inl e) \<Rightarrow> Some (Inl e)
      | Some (Inr st) \<Rightarrow> Some (Inr (Normalize_finish n st)))"

text \<open>The configuration of the end-to-end scenarios: tables, commands and comments are
  collected, every other option has its default.\<close>

definition scenarioConfig :: normalizerConfig where
  "scenarioConfig =
     \<lparr>CollectTables = True, CollectCommands = True, CollectComments = True,
      CollectProcedure = False, KeepSQLAlias = False, UppercaseKeywords = False,
      RemoveSpaceBetweenParentheses = False, KeepTrailingSemicolon = False,
      KeepIdentifierQuotation = False\<rparr>"

section \<open>Notions of the statements\<close>

text \<open>A keyword table gives no keyword the kind \<open>EOF\<close>.\<close>

definition noEOFKeyword :: "keywordTable \<Rightarrow> bool" where
  "noEOFKeyword K \<longleftrightarrow> list_all (\<lambda>e. fst (snd e) \<noteq> EOF) K"

text \<open>The lexer after \<open>n\<close> calls of \<open>Scan\<close>.\<close>

fun ScanN :: "keywordTable \<Rightarrow> (nat \<Rightarrow> bool) \<Rightarrow> nat \<Rightarrow> Lexer \<Rightarrow> Lexer" where
  "ScanN K L 0 s = s"
| "ScanN K L (Suc n) s = ScanN K L n (snd (Scan K L s))"

text \<open>
  The text that the decimal path accepts after the first character of the token, in the
  words of the amended claim: digits, \<open>.\<close> and exponent markers in any number and order,
  each exponent marker optionally followed by one sign.
\<close>

fun decimalRun :: "string \<Rightarrow> bool" where
  "decimalRun [] = True"
| "decimalRun (c # cs) =
     (if isExpontent (rune c) then
        (case cs of
           [] \<Rightarrow> True
         | d # ds \<Rightarrow> if isLeadingSign (rune d) then decimalRun ds else decimalRun cs)
      else if isDigit (rune c) \<or> c = CHR ''.'' then decimalRun cs
      else False)"

text \<open>
  How many of the characters that follow the first character of the token the decimal
  path accepts, in the words of the amended claim: read from the left, a digit and a
  \<open>.\<close> are accepted, an exponent marker is accepted together with the sign that
  directly follows it, if one does, and the first character that is none of these ends
  the token. A sign is accepted nowhere else.
\<close>

fun decimalRunLength :: "string \<Rightarrow> nat" where
  "decimalRunLength [] = 0"
| "decimalRunLength (c # cs) =
     (if isExpontent (rune c) then
        (case cs of
           [] \<Rightarrow> 1
         | d # ds \<Rightarrow>
             if isLeadingSign (rune d) then 2 + decimalRunLength ds
             else 1 + decimalRunLength cs)
      else if isDigit (rune c) \<or> c = CHR ''.'' then 1 + decimalRunLength cs
      else 0)"

text \<open>A rune at which the loop of the decimal path goes on.\<close>

definition decimalRune :: "nat \<Rightarrow> bool" where
  "decimalRune ch \<longleftrightarrow> isDigit ch \<or> ch = rune CHR ''.'' \<or> isExpontent ch"

text \<open>The lexer \<open>s'\<close> differs from \<open>s\<close> in its cursor at most.\<close>

definition sameButCursor :: "Lexer \<Rightarrow> Lexer \<Rightarrow> bool" where
  "sameButCursor s s' \<longleftrightarrow> s' = s\<lparr>cursor := cursor s'\<rparr>"

text \<open>
  What the loop of \<open>scanDecimalNumber\<close> does from \<open>s\<close>, reaching \<open>s'\<close>: it moves the cursor
  over the characters that \<open>decimalRunLength\<close> counts and stops before a rune at which
  it does not go on.
\<close>

definition decimalLoopSpec :: "Lexer \<Rightarrow> Lexer \<Rightarrow> bool" where
  "decimalLoopSpec s s' \<longleftrightarrow>
     sameButCursor s s'
     \<and> cursor s' = cursor s + decimalRunLength (drop (cursor s) (src s))
     \<and> \<not> decimalRune (peek s')"

text \<open>
  The characters after an opening quote hold no closing quote, in the words of the
  claim: every quote among them stands behind a backslash that escapes it.
\<close>

fun unterminated :: "string \<Rightarrow> bool" where
  "unterminated [] = True"
| "unterminated (c # cs) =
     (if c = CHR 0x5C then (case cs of [] \<Rightarrow> True | _ # ds \<Rightarrow> unterminated ds)
      else if c = CHR 0x27 then False
      else unterminated cs)"

text \<open>
  The tokens that repeated calls of \<open>Scan\<close> return, up to and with the \<open>EOF\<close> token;
  \<open>None\<close> when \<open>EOF\<close> is not among the first \<open>fuel\<close> tokens.
\<close>

fun ScanAll :: "keywordTable \<Rightarrow> (nat \<Rightarrow> bool) \<Rightarrow> nat \<Rightarrow> Lexer \<Rightarrow> Token list option" where
  "ScanAll K L 0 s = None"
| "ScanAll K L (Suc fuel) s =
     (let (t, s') = Scan K L s
      in if Type t = EOF then Some [t] else map_option ((#) t) (ScanAll K L fuel s'))"



text \<open>
  While the placeholder state is groupable, a value token has been seen: the state is
  set behind a test of the value of \<open>lastValueToken\<close>.
\<close>

definition groupableInvariant :: "NormalizeState \<Rightarrow> bool" where
  "groupableInvariant st \<longleftrightarrow>
     \<not> groupable (groupablePlaceholderState st) \<or> lastValueToken st \<noteq> None"


section \<open>The token kinds of the scanners\<close>

lemma Type_emit [simp]: "Type (fst (emit s t)) = t"
  by (simp add: emit_def)

lemma Type_scanString_loop:
  "Type (fst (scanString_loop s ch e)) \<in> {STRING, INCOMPLETE_STRING}"
proof (induction s ch e rule: scanString_loop.induct)
  case (1 s ch escaped)
  then show ?case
    by (subst scanString_loop.simps, cases escaped)
       (auto simp: Let_def split: prod.splits)
qed

lemma Type_scanDoubleQuotedIdentifier_loop:
  "Type (fst (scanDoubleQuotedIdentifier_loop d c s ch)) \<in> {QUOTED_IDENT, ERROR}"
  by (induction d c s ch rule: scanDoubleQuotedIdentifier_loop.induct)
     (subst scanDoubleQuotedIdentifier_loop.simps, auto simp: Let_def split: prod.splits)

lemma Type_scanMultiLineComment_loop:
  "Type (fst (scanMultiLineComment_loop s ch)) \<in> {MULTILINE_COMMENT, ERROR}"
  by (induction s ch rule: scanMultiLineComment_loop.induct)
     (subst scanMultiLineComment_loop.simps, auto simp: Let_def split: prod.splits)

lemma Type_scanDollarQuotedString_body:
  "Type (fst (scanDollarQuotedString_body s tag))
     \<in> {DOLLAR_QUOTED_FUNCTION, DOLLAR_QUOTED_STRING, ERROR}"
  by (induction s tag rule: scanDollarQuotedString_body.induct)
     (subst scanDollarQuotedString_body.simps, auto simp: Let_def split: prod.splits)

lemma nodeTokenType_not_EOF:
  "noEOFKeyword K \<Longrightarrow> nodeIsEnd K node \<Longrightarrow> nodeTokenType K node \<noteq> EOF"
  by (auto simp: noEOFKeyword_def nodeIsEnd_def nodeTokenType_def list_all_iff
           dest!: map_of_SomeD split: option.splits)

lemma Type_scanIdentifier:
  "noEOFKeyword K \<Longrightarrow> Type (fst (scanIdentifier K L s ch)) \<noteq> EOF"
  by (simp add: scanIdentifier_def Let_def nodeTokenType_not_EOF case_prod_beta)

lemma Type_scanOperator: "Type (fst (scanOperator s ch)) \<in> {JSON_OP, OPERATOR}"
  by (simp add: scanOperator_def Let_def case_prod_beta)

lemma Type_scanNumber: "Type (fst (scanNumber s ch)) = NUMBER"
  by (simp add: scanNumber_def scanNumberic_def scanHexNumber_def scanOctalNumber_def
        scanDecimalNumber_def Let_def case_prod_beta)

lemma Type_scanOther:
  "Type (fst (scanWhitespace s)) = WS"
  "Type (fst (scanString s)) \<in> {STRING, INCOMPLETE_STRING}"
  "Type (fst (scanDoubleQuotedIdentifier s d)) \<in> {QUOTED_IDENT, ERROR}"
  "Type (fst (scanSingleLineComment s)) = COMMENT"
  "Type (fst (scanMultiLineComment s)) \<in> {MULTILINE_COMMENT, ERROR}"
  "Type (fst (scanNumberWithLeadingSign s)) = NUMBER"
  "Type (fst (scanWildcard s)) = WILDCARD"
  "Type (fst (scanPositionalParameter s)) = POSITIONAL_PARAMETER"
  "Type (fst (scanDollarQuotedString s)) \<in> {DOLLAR_QUOTED_FUNCTION, DOLLAR_QUOTED_STRING, ERROR}"
  "Type (fst (scanBindParameter L s)) = BIND_PARAMETER"
  "Type (fst (scanSystemVariable L s)) \<in> {SYSTEM_VARIABLE, ERROR}"
  "Type (fst (scanPunctuation s)) = PUNCTUATION"
  using Type_scanString_loop Type_scanDoubleQuotedIdentifier_loop Type_scanMultiLineComment_loop
    Type_scanDollarQuotedString_body
  by (simp_all add: scanWhitespace_def scanString_def scanDoubleQuotedIdentifier_def
        scanSingleLineComment_def scanMultiLineComment_def scanNumberWithLeadingSign_def
        scanDecimalNumber_def scanWildcard_def scanPositionalParameter_def
        scanDollarQuotedString_def scanBindParameter_def scanSystemVariable_def
        scanPunctuation_def Let_def case_prod_beta)

lemma Type_not_EOF:
  "Type (fst (scanWhitespace s)) \<noteq> EOF"
  "Type (fst (scanString s)) \<noteq> EOF"
  "Type (fst (scanDoubleQuotedIdentifier s d)) \<noteq> EOF"
  "Type (fst (scanSingleLineComment s)) \<noteq> EOF"
  "Type (fst (scanMultiLineComment s)) \<noteq> EOF"
  "Type (fst (scanNumberWithLeadingSign s)) \<noteq> EOF"
  "Type (fst (scanWildcard s)) \<noteq> EOF"
  "Type (fst (scanPositionalParameter s)) \<noteq> EOF"
  "Type (fst (scanDollarQuotedString s)) \<noteq> EOF"
  "Type (fst (scanBindParameter L s)) \<noteq> EOF"
  "Type (fst (scanSystemVariable L s)) \<noteq> EOF"
  "Type (fst (scanPunctuation s)) \<noteq> EOF"
  "Type (fst (scanOperator s ch)) \<noteq> EOF"
  "Type (fst (scanNumber s ch)) \<noteq> EOF"
  using Type_scanOther(2) [of s] Type_scanOther(3) [of s d] Type_scanOther(5) [of s]
    Type_scanOther(9) [of s] Type_scanOther(11) [of L s] Type_scanOperator [of s ch]
  by (auto simp: Type_scanOther Type_scanNumber)

lemma Type_scanHash:
  "noEOFKeyword K \<Longrightarrow> Type (fst (scanHash K L s ch)) \<noteq> EOF"
  by (auto simp: scanHash_def Type_scanIdentifier Type_not_EOF)

text \<open>\<open>Scan\<close> returns \<open>EOF\<close> exactly where the rune under the cursor is 0.\<close>

lemma Scan_at_EOF: "peek s = 0 \<Longrightarrow> Scan K L s = emit s EOF"
  by (simp add: Scan_def Let_def isWhitespace_def isLetter_def isAsciiLetter_def
        isDoubleQuote_def isSingleQuote_def isSingleLineComment_def isMultiLineComment_def
        isLeadingSign_def isDigit_def isWildcard_def isOperator_def isPunctuation_def
        isEOF_def)

lemma Scan_EOF_peek:
  assumes "noEOFKeyword K" and "Type (fst (Scan K L s)) = EOF"
  shows "peek s = 0"
proof (rule ccontr)
  assume "peek s \<noteq> 0"
  then have "Type (fst (Scan K L s)) \<noteq> EOF"
    using assms(1)
    by (simp add: Scan_def Let_def isEOF_def Type_not_EOF Type_scanHash Type_scanIdentifier
          case_prod_beta)
  with assms(2) show False by simp
qed

lemma peek_emit [simp]: "peek (snd (emit s t)) = peek s"
  by (simp add: emit_def peek_def lookAhead_def)

lemma ScanN_at_EOF: "peek s = 0 \<Longrightarrow> peek (ScanN K L n s) = 0"
  by (induction n arbitrary: s) (simp_all add: Scan_at_EOF)

text \<open>
  C9. Once \<open>Scan\<close> has returned a token of type \<open>EOF\<close>, every later call of \<open>Scan\<close> on
  the lexer returns a token of type \<open>EOF\<close> too, whatever the input and the dialect, for
  every keyword table that gives no keyword the kind \<open>EOF\<close>.
\<close>

theorem Scan_EOF_forever:
  assumes "noEOFKeyword K" and "Type (fst (Scan K L s)) = EOF"
  shows "Type (fst (Scan K L (ScanN K L n s))) = EOF"
proof -
  have "peek s = 0" using assms by (rule Scan_EOF_peek)
  then have "peek (ScanN K L n s) = 0" by (rule ScanN_at_EOF)
  then show ?thesis by (simp add: Scan_at_EOF)
qed

theorem Scan_EOF_forever_witness:
  "noEOFKeyword sqlKeywords
   \<and> Type (fst (Scan sqlKeywords (\<lambda>_. False) (ScanN sqlKeywords (\<lambda>_. False) 2 (New ''a'' DBMSGeneric)))) = EOF
   \<and> Type (fst (Scan sqlKeywords (\<lambda>_. False)
        (ScanN sqlKeywords (\<lambda>_. False) 3 (ScanN sqlKeywords (\<lambda>_. False) 2 (New ''a'' DBMSGeneric))))) = EOF"
proof -
  have k: "noEOFKeyword sqlKeywords" by code_simp
  have e: "Type (fst (Scan sqlKeywords (\<lambda>_. False) (ScanN sqlKeywords (\<lambda>_. False) 2 (New ''a'' DBMSGeneric)))) = EOF"
    by code_simp
  show ?thesis using k e Scan_EOF_forever [OF k e, of 3] by simp
qed

section \<open>Runes and bytes\<close>

lemma mod_shift: "k < m \<Longrightarrow> (m * q + k) mod m = (k::nat)"
  by simp

lemma mod_range:
  fixes a :: nat
  assumes "m * q + lo \<le> a" and "a < m * q + hi" and "hi \<le> m"
  shows "lo \<le> a mod m" and "a mod m < hi"
proof -
  define k where "k = a - m * q"
  have k: "a = m * q + k" "lo \<le> k" "k < hi" using assms by (simp_all add: k_def)
  have "a mod m = k" using k assms(3) by (simp add: mod_shift)
  then show "lo \<le> a mod m" and "a mod m < hi" using k by simp_all
qed

lemma rune2_ge: "0xC2 \<le> s0 \<Longrightarrow> s0 < 0xE0 \<Longrightarrow> 0x80 \<le> rune2 s0 s1"
proof -
  assume "0xC2 \<le> s0" "s0 < 0xE0"
  then have "2 \<le> s0 mod 32" using mod_range(1) [of 32 6 2 s0 32] by simp
  then have "2 * 64 \<le> s0 mod 32 * 64" by (rule mult_le_mono1)
  then show ?thesis unfolding rune2_def by linarith
qed

lemma rune3_ge:
  assumes "0xE0 \<le> s0" "s0 < 0xF0" "(if s0 = 0xE0 then 0xA0 else 0x80) \<le> s1" "s1 \<le> 0xBF"
  shows "0x80 \<le> rune3 s0 s1 s2"
proof (cases "s0 = 0xE0")
  case True
  then have "32 \<le> s1 mod 64" using assms mod_range(1) [of 64 2 32 s1 64] by simp
  then have "32 * 64 \<le> s1 mod 64 * 64" by (rule mult_le_mono1)
  then show ?thesis unfolding rune3_def by linarith
next
  case False
  then have "1 \<le> s0 mod 16" using assms mod_range(1) [of 16 14 1 s0 16] by simp
  then have "1 * 4096 \<le> s0 mod 16 * 4096" by (rule mult_le_mono1)
  then show ?thesis unfolding rune3_def by linarith
qed

lemma rune4_ge:
  assumes "0xF0 \<le> s0" "s0 \<le> 0xF4" "(if s0 = 0xF0 then 0x90 else 0x80) \<le> s1" "s1 \<le> 0xBF"
  shows "0x80 \<le> rune4 s0 s1 s2 s3"
proof (cases "s0 = 0xF0")
  case True
  then have "16 \<le> s1 mod 64" using assms mod_range(1) [of 64 2 16 s1 64] by simp
  then have "16 * 4096 \<le> s1 mod 64 * 4096" by (rule mult_le_mono1)
  then show ?thesis unfolding rune4_def by linarith
next
  case False
  then have "1 \<le> s0 mod 8" using assms mod_range(1) [of 8 30 1 s0 5] by simp
  then have "1 * 262144 \<le> s0 mod 8 * 262144" by (rule mult_le_mono1)
  then show ?thesis unfolding rune4_def by linarith
qed

lemma DecodeRuneInString_ascii:
  "rune c < 0x80 \<Longrightarrow> fst (DecodeRuneInString (c # t)) = rune c"
  by (simp add: DecodeRuneInString_def Let_def)

lemma DecodeRuneInString_non_ascii:
  assumes "\<not> rune c < 0x80"
  shows "0x80 \<le> fst (DecodeRuneInString (c # t))"
proof -
  consider (bad) "rune c < 0xC2 \<or> 0xF4 < rune c"
    | (two) "0xC2 \<le> rune c" "rune c < 0xE0"
    | (three) "0xE0 \<le> rune c" "rune c < 0xF0"
    | (four) "0xF0 \<le> rune c" "rune c \<le> 0xF4"
    by linarith
  then show ?thesis
  proof cases
    case bad
    then show ?thesis using assms by (simp add: DecodeRuneInString_def RuneError_def Let_def)
  next
    case two
    then show ?thesis
      using assms rune2_ge [OF two]
      by (simp add: DecodeRuneInString_def RuneError_def Let_def)
  next
    case three
    then show ?thesis
      using assms
      by (auto simp: DecodeRuneInString_def RuneError_def Let_def not_less not_le
               intro!: rune3_ge)
  next
    case four
    then show ?thesis
      using assms
      by (auto simp: DecodeRuneInString_def RuneError_def Let_def not_less not_le
               intro!: rune4_ge)
  qed
qed

lemma DecodeRuneInString_lt_0x80:
  "fst (DecodeRuneInString (c # t)) < 0x80 \<longleftrightarrow> rune c < 0x80"
  using DecodeRuneInString_ascii [of c t] DecodeRuneInString_non_ascii [of c t]
  by (cases "rune c < 0x80") auto

lemma lookAhead_ascii:
  assumes "lookAhead s n = r" "0 < r" "r < 0x80"
  shows "cursor s + n < length (src s) \<and> rune (src s ! (cursor s + n)) = r"
proof -
  have lt: "cursor s + n < length (src s)"
    using assms by (auto simp: lookAhead_def split: if_splits)
  then have d: "drop (cursor s + n) (src s)
      = src s ! (cursor s + n) # drop (Suc (cursor s + n)) (src s)"
    by (simp add: Cons_nth_drop_Suc)
  have "fst (DecodeRuneInString (drop (cursor s + n) (src s))) = r"
    using assms lt by (simp add: lookAhead_def)
  then show ?thesis
    using assms lt
      DecodeRuneInString_lt_0x80 [of "src s ! (cursor s + n)" "drop (Suc (cursor s + n)) (src s)"]
      DecodeRuneInString_ascii [of "src s ! (cursor s + n)" "drop (Suc (cursor s + n)) (src s)"]
    by (simp add: d)
qed

lemma lookAhead_byte:
  "cursor s + n < length (src s) \<Longrightarrow> rune (src s ! (cursor s + n)) < 0x80 \<Longrightarrow>
   lookAhead s n = rune (src s ! (cursor s + n))"
  by (simp add: lookAhead_def Cons_nth_drop_Suc [symmetric] DecodeRuneInString_ascii)
lemma mod64_le: "(x::nat) mod 64 \<le> 63"
  using mod_less_divisor [of 64 x] by linarith

lemma rune2_lt: "rune2 s0 s1 < 0x800"
proof -
  have "s0 mod 32 < 32" by simp
  then have "s0 mod 32 \<le> 31" by linarith
  then have "s0 mod 32 * 64 \<le> 31 * 64" by (rule mult_le_mono1)
  then show ?thesis using mod64_le [of s1] unfolding rune2_def by linarith
qed

lemma rune3_valid:
  assumes "0xE0 \<le> s0" "s0 < 0xF0" "s1 \<le> (if s0 = 0xED then 0x9F else 0xBF)" "0x80 \<le> s1"
  shows "rune3 s0 s1 s2 < 0xD800 \<or> (0xE000 \<le> rune3 s0 s1 s2 \<and> rune3 s0 s1 s2 \<le> 0xFFFF)"
proof -
  have b2: "s2 mod 64 \<le> 63" and b1: "s1 mod 64 \<le> 63" by (rule mod64_le)+
  then have b1': "s1 mod 64 * 64 \<le> 63 * 64" by simp
  consider (lo) "s0 < 0xED" | (ed) "s0 = 0xED" | (hi) "0xEE \<le> s0" by linarith
  then show ?thesis
  proof cases
    case lo
    then have "s0 mod 16 < 13" using assms mod_range(2) [of 16 14 0 s0 13] by simp
    then have "s0 mod 16 \<le> 12" by linarith
    then have "s0 mod 16 * 4096 \<le> 12 * 4096" by (rule mult_le_mono1)
    then show ?thesis using b1' b2 unfolding rune3_def by linarith
  next
    case ed
    then have "s1 mod 64 < 32" using assms mod_range(2) [of 64 2 0 s1 32] by simp
    then have "s1 mod 64 \<le> 31" by linarith
    then have "s1 mod 64 * 64 \<le> 31 * 64" by (rule mult_le_mono1)
    moreover have "s0 mod 16 * 4096 = 13 * 4096" using ed by simp
    ultimately show ?thesis using b2 unfolding rune3_def by linarith
  next
    case hi
    then have "14 \<le> s0 mod 16" and "s0 mod 16 < 16"
      using assms mod_range [of 16 14 14 s0 16] by simp_all
    then have "14 * 4096 \<le> s0 mod 16 * 4096" and "s0 mod 16 * 4096 \<le> 15 * 4096"
      by simp_all
    then show ?thesis using b1' b2 unfolding rune3_def by linarith
  qed
qed

lemma rune4_valid:
  assumes "0xF0 \<le> s0" "s0 \<le> 0xF4" "(if s0 = 0xF0 then 0x90 else 0x80) \<le> s1"
    "s1 \<le> (if s0 = 0xF4 then 0x8F else 0xBF)"
  shows "0xE000 \<le> rune4 s0 s1 s2 s3 \<and> rune4 s0 s1 s2 s3 \<le> 0x10FFFF"
proof -
  have b3: "s3 mod 64 \<le> 63" and b2: "s2 mod 64 \<le> 63" and b1: "s1 mod 64 \<le> 63"
    by (rule mod64_le)+
  then have b2': "s2 mod 64 * 64 \<le> 63 * 64" and b1': "s1 mod 64 * 4096 \<le> 63 * 4096" by simp_all
  consider (f0) "s0 = 0xF0" | (mid) "0xF1 \<le> s0" "s0 < 0xF4" | (f4) "s0 = 0xF4"
    using assms by linarith
  then show ?thesis
  proof cases
    case f0
    then have "16 \<le> s1 mod 64" using assms mod_range(1) [of 64 2 16 s1 64] by simp
    then have "16 * 4096 \<le> s1 mod 64 * 4096" by (rule mult_le_mono1)
    moreover have "s0 mod 8 * 262144 = 0" using f0 by simp
    ultimately show ?thesis using b1' b2' b3 unfolding rune4_def by linarith
  next
    case mid
    then have "1 \<le> s0 mod 8" and "s0 mod 8 < 4" using mod_range [of 8 30 1 s0 4] by simp_all
    then have "1 * 262144 \<le> s0 mod 8 * 262144" and "s0 mod 8 * 262144 \<le> 3 * 262144"
      by simp_all
    then show ?thesis using b1' b2' b3 unfolding rune4_def by linarith
  next
    case f4
    then have "s1 mod 64 < 16" using assms mod_range(2) [of 64 2 0 s1 16] by simp
    then have "s1 mod 64 \<le> 15" by linarith
    then have "s1 mod 64 * 4096 \<le> 15 * 4096" by (rule mult_le_mono1)
    moreover have "s0 mod 8 * 262144 = 4 * 262144" using f4 by simp
    ultimately show ?thesis using b2' b3 unfolding rune4_def by linarith
  qed
qed

lemma RuneLen_pos: "r < 0xD800 \<or> (0xE000 \<le> r \<and> r \<le> 0x10FFFF) \<Longrightarrow> 0 < RuneLen r"
  by (auto simp: RuneLen_def)

lemma RuneLen_RuneError: "0 < RuneLen RuneError"
  by (simp add: RuneLen_def RuneError_def)

text \<open>Every rune that \<open>DecodeRuneInString\<close> returns has an encoding.\<close>

lemma RuneLen_DecodeRuneInString: "0 < RuneLen (fst (DecodeRuneInString s))"
proof (cases s)
  case Nil
  then show ?thesis by (simp add: DecodeRuneInString_def RuneLen_RuneError)
next
  case (Cons c t)
  consider (ascii) "rune c < 0x80" | (bad) "0x80 \<le> rune c" "rune c < 0xC2 \<or> 0xF4 < rune c"
    | (two) "0xC2 \<le> rune c" "rune c < 0xE0"
    | (three) "0xE0 \<le> rune c" "rune c < 0xF0"
    | (four) "0xF0 \<le> rune c" "rune c \<le> 0xF4"
    by linarith
  then show ?thesis
  proof cases
    case ascii
    then show ?thesis using Cons by (simp add: DecodeRuneInString_def RuneLen_def)
  next
    case bad
    then show ?thesis
      using Cons by (auto simp: DecodeRuneInString_def RuneLen_RuneError Let_def)
  next
    case two
    have "0 < RuneLen (rune2 (rune c) x)" for x
      using rune2_lt [of "rune c" x] by (intro RuneLen_pos) simp
    then show ?thesis
      using Cons two
      by (auto simp: DecodeRuneInString_def RuneLen_RuneError Let_def)
  next
    case three
    have "0 < RuneLen (rune3 (rune c) x y)"
      if "x \<le> (if rune c = 0xED then 0x9F else 0xBF)" "0x80 \<le> x" for x y
      using rune3_valid [OF three that, of y] by (intro RuneLen_pos) auto
    then show ?thesis
      using Cons three
      by (auto simp: DecodeRuneInString_def RuneLen_RuneError Let_def not_less not_le)
  next
    case four
    have "0 < RuneLen (rune4 (rune c) x y z)"
      if "(if rune c = 0xF0 then 0x90 else 0x80) \<le> x"
         "x \<le> (if rune c = 0xF4 then 0x8F else 0xBF)" for x y z
      using rune4_valid [OF four that, of y z] by (intro RuneLen_pos) auto
    then show ?thesis
      using Cons four
      by (auto simp: DecodeRuneInString_def RuneLen_RuneError Let_def not_less not_le)
  qed
qed

lemma RuneLen_0: "0 < RuneLen 0"
  by (simp add: RuneLen_def)

lemma RuneLen_nextBy: "0 < RuneLen (fst (nextBy s n))"
  by (simp add: nextBy_def Let_def RuneLen_DecodeRuneInString RuneLen_0)

lemma RuneLen_lookAhead: "0 < RuneLen (lookAhead s n)"
  by (simp add: lookAhead_def RuneLen_DecodeRuneInString RuneLen_0)

section \<open>Decimal numbers\<close>

lemma next'_eq:
  "next' s =
     (if cursor s < length (src s)
      then (peek (s\<lparr>cursor := Suc (cursor s)\<rparr>), s\<lparr>cursor := Suc (cursor s)\<rparr>)
      else (0, s))"
  by (auto simp: next'_def nextBy_eq peek_def)

lemma peek_pos: "peek s \<noteq> 0 \<Longrightarrow> cursor s < length (src s)"
  by (auto simp: peek_def lookAhead_def split: if_splits)

lemma peek_ascii: "peek s = r \<Longrightarrow> 0 < r \<Longrightarrow> r < 0x80 \<Longrightarrow> rune (src s ! cursor s) = r"
  using lookAhead_ascii [of s 0 r] by (simp add: peek_def)

lemma peek_byte:
  "cursor s < length (src s) \<Longrightarrow> rune (src s ! cursor s) < 0x80 \<Longrightarrow>
   peek s = rune (src s ! cursor s)"
  using lookAhead_byte [of s 0] by (simp add: peek_def)

lemma take_drop_step:
  "i < j \<Longrightarrow> i < length xs \<Longrightarrow>
   take (j - i) (drop i xs) = xs ! i # take (j - Suc i) (drop (Suc i) xs)"
  by (simp add: Cons_nth_drop_Suc [symmetric] take_Cons' )

lemma rune_eq_iff: "rune c = rune d \<longleftrightarrow> c = d"
  by (metis char_of_char)

lemma decimalRune_ascii: "decimalRune ch \<Longrightarrow> 0 < ch \<and> ch < 0x80"
  by (auto simp: decimalRune_def isDigit_def isExpontent_def)

lemma isLeadingSign_ascii: "isLeadingSign ch \<Longrightarrow> 0 < ch \<and> ch < 0x80"
  by (auto simp: isLeadingSign_def)

lemma sameButCursor_refl [simp]: "sameButCursor s s"
  by (simp add: sameButCursor_def)

lemma sameButCursor_step: "sameButCursor (s\<lparr>cursor := k\<rparr>) s' \<Longrightarrow> sameButCursor s s'"
  by (cases s, cases s') (simp add: sameButCursor_def)

lemma sameButCursor_src: "sameButCursor s s' \<Longrightarrow> src s' = src s"
  by (cases s, cases s') (simp add: sameButCursor_def)

lemma decimalRunLength_le: "decimalRunLength xs \<le> length xs"
proof (induction xs rule: decimalRunLength.induct)
  case 1
  then show ?case by simp
next
  case (2 c cs)
  show ?case
  proof (cases "isExpontent (rune c)")
    case exp: True
    show ?thesis
    proof (cases cs)
      case Nil
      then show ?thesis using exp by simp
    next
      case (Cons d ds)
      show ?thesis
      proof (cases "isLeadingSign (rune d)")
        case True
        have "decimalRunLength ds \<le> length ds" by (rule "2.IH"(1) [OF exp Cons True])
        then show ?thesis using exp Cons True by simp
      next
        case False
        have "decimalRunLength cs \<le> length cs" by (rule "2.IH"(2) [OF exp Cons False])
        then show ?thesis using exp Cons False by simp
      qed
    qed
  next
    case False
    show ?thesis
    proof (cases "isDigit (rune c) \<or> c = CHR ''.''")
      case True
      have "decimalRunLength cs \<le> length cs" by (rule "2.IH"(3) [OF False True])
      then show ?thesis using False True by simp
    next
      case no: False
      then show ?thesis using False by simp
    qed
  qed
qed

lemma decimalRun_take_length: "decimalRun (take (decimalRunLength xs) xs)"
proof (induction xs rule: decimalRunLength.induct)
  case 1
  then show ?case by simp
next
  case (2 c cs)
  show ?case
  proof (cases "isExpontent (rune c)")
    case exp: True
    show ?thesis
    proof (cases cs)
      case Nil
      then show ?thesis using exp by simp
    next
      case (Cons d ds)
      show ?thesis
      proof (cases "isLeadingSign (rune d)")
        case True
        have "decimalRun (take (decimalRunLength ds) ds)" by (rule "2.IH"(1) [OF exp Cons True])
        then show ?thesis using exp Cons True by simp
      next
        case False
        define n where "n = decimalRunLength cs"
        have ih: "decimalRun (take n cs)"
          unfolding n_def by (rule "2.IH"(2) [OF exp Cons False])
        have "decimalRunLength (c # cs) = Suc (decimalRunLength cs)"
          using exp Cons False by simp
        then have l: "decimalRunLength (c # cs) = Suc n" by (simp only: n_def)
        show ?thesis
        proof (cases n)
          case 0
          then show ?thesis using exp by (subst l) simp
        next
          case (Suc m)
          then show ?thesis using exp ih False by (subst l) (simp add: Cons)
        qed
      qed
    qed
  next
    case False
    show ?thesis
    proof (cases "isDigit (rune c) \<or> c = CHR ''.''")
      case True
      have "decimalRun (take (decimalRunLength cs) cs)" by (rule "2.IH"(3) [OF False True])
      then show ?thesis using False True by simp
    next
      case no: False
      then show ?thesis using False by simp
    qed
  qed
qed

lemma decimalRune_byte:
  assumes "cursor s < length (src s)"
    and "isExpontent (rune (src s ! cursor s)) \<or> isDigit (rune (src s ! cursor s))
         \<or> src s ! cursor s = CHR ''.''"
  shows "decimalRune (peek s)"
proof -
  have d: "decimalRune (rune (src s ! cursor s))"
    using assms(2) by (auto simp: decimalRune_def)
  then have "peek s = rune (src s ! cursor s)"
    using decimalRune_ascii [OF d] peek_byte [OF assms(1)] by simp
  with d show ?thesis by simp
qed

lemma decimalLoopSpec_stop:
  assumes "\<not> decimalRune (peek s)" and "cursor s \<le> length (src s)"
  shows "decimalLoopSpec s s"
proof (cases "cursor s < length (src s)")
  case True
  then have "drop (cursor s) (src s) = src s ! cursor s # drop (Suc (cursor s)) (src s)"
    by (simp add: Cons_nth_drop_Suc)
  moreover have "\<not> (isExpontent (rune (src s ! cursor s)) \<or> isDigit (rune (src s ! cursor s))
      \<or> src s ! cursor s = CHR ''.'')"
    using decimalRune_byte [OF True] assms(1) by blast
  ultimately have "decimalRunLength (drop (cursor s) (src s)) = 0" by simp
  then show ?thesis using assms(1) by (simp add: decimalLoopSpec_def)
next
  case False
  then show ?thesis using assms by (simp add: decimalLoopSpec_def)
qed

lemma decimalLoopSpec_digit:
  assumes "cursor s < length (src s)"
    and "\<not> isExpontent (rune (src s ! cursor s))"
    and "isDigit (rune (src s ! cursor s)) \<or> src s ! cursor s = CHR ''.''"
    and "decimalLoopSpec (s\<lparr>cursor := Suc (cursor s)\<rparr>) s'"
  shows "decimalLoopSpec s s'"
proof -
  have sb: "sameButCursor s s'"
    using assms(4) by (auto simp: decimalLoopSpec_def dest: sameButCursor_step)
  have "drop (cursor s) (src s) = src s ! cursor s # drop (Suc (cursor s)) (src s)"
    using assms(1) by (simp add: Cons_nth_drop_Suc)
  then have "decimalRunLength (drop (cursor s) (src s))
      = Suc (decimalRunLength (drop (Suc (cursor s)) (src s)))"
    using assms(2,3) by simp
  then show ?thesis using assms(4) sb by (simp add: decimalLoopSpec_def)
qed

lemma decimalLoopSpec_exponent:
  assumes "cursor s < length (src s)"
    and "isExpontent (rune (src s ! cursor s))"
    and "\<not> isLeadingSign (peek (s\<lparr>cursor := Suc (cursor s)\<rparr>))"
    and "decimalLoopSpec (s\<lparr>cursor := Suc (cursor s)\<rparr>) s'"
  shows "decimalLoopSpec s s'"
proof -
  let ?c = "cursor s"
  let ?s1 = "s\<lparr>cursor := Suc ?c\<rparr>"
  let ?rest = "drop (Suc ?c) (src s)"
  have sb: "sameButCursor s s'"
    using assms(4) by (auto simp: decimalLoopSpec_def dest: sameButCursor_step)
  have dr: "drop ?c (src s) = src s ! ?c # ?rest"
    using assms(1) by (simp add: Cons_nth_drop_Suc)
  have nosign: "\<not> isLeadingSign (rune d)" if r: "?rest = d # ds" for d ds
  proof
    assume sg: "isLeadingSign (rune d)"
    have lt1: "Suc ?c < length (src s)"
    proof (rule ccontr)
      assume "\<not> Suc ?c < length (src s)"
      then have "?rest = []" by simp
      with r show False by simp
    qed
    then have h: "d = src s ! Suc ?c"
      using r by (simp add: Cons_nth_drop_Suc [symmetric])
    have "peek ?s1 = rune (src s ! Suc ?c)"
      using lt1 sg h isLeadingSign_ascii [OF sg] peek_byte [of ?s1] by simp
    with sg h assms(3) show False by simp
  qed
  have "decimalRunLength (src s ! ?c # ?rest) = Suc (decimalRunLength ?rest)"
    using assms(2) nosign by (cases ?rest) auto
  then show ?thesis using assms(4) sb dr by (simp add: decimalLoopSpec_def)
qed

lemma decimalLoopSpec_signed_exponent:
  assumes "Suc (cursor s) < length (src s)"
    and "isExpontent (rune (src s ! cursor s))"
    and "isLeadingSign (rune (src s ! Suc (cursor s)))"
    and "decimalLoopSpec (s\<lparr>cursor := Suc (Suc (cursor s))\<rparr>) s'"
  shows "decimalLoopSpec s s'"
proof -
  let ?c = "cursor s"
  have sb: "sameButCursor s s'"
    using assms(4) by (auto simp: decimalLoopSpec_def dest: sameButCursor_step)
  have "drop ?c (src s) = src s ! ?c # src s ! Suc ?c # drop (Suc (Suc ?c)) (src s)"
    using assms(1) by (simp add: Cons_nth_drop_Suc)
  then have "decimalRunLength (drop ?c (src s))
      = Suc (Suc (decimalRunLength (drop (Suc (Suc ?c)) (src s))))"
    using assms(2,3) by simp
  then show ?thesis using assms(4) sb by (simp add: decimalLoopSpec_def)
qed

lemma scanDecimalNumber_loop_run:
  "cursor s \<le> length (src s) \<Longrightarrow> decimalLoopSpec s (scanDecimalNumber_loop s)"
proof (induction s rule: scanDecimalNumber_loop.induct)
  case (1 s)
  let ?c = "cursor s"
  let ?s1 = "s\<lparr>cursor := Suc ?c\<rparr>"
  let ?s2 = "s\<lparr>cursor := Suc (Suc ?c)\<rparr>"
  show ?case
  proof (cases "decimalRune (peek s)")
    case False
    then have "scanDecimalNumber_loop s = s"
      by (subst scanDecimalNumber_loop.simps) (simp add: decimalRune_def)
    then show ?thesis using False "1.prems" by (simp add: decimalLoopSpec_stop)
  next
    case True
    then have lt: "?c < length (src s)" and asc: "rune (src s ! ?c) = peek s"
      using decimalRune_ascii [OF True] peek_pos [of s] peek_ascii [of s "peek s"] by auto
    have n1: "next' s = (peek ?s1, ?s1)" using lt by (simp add: next'_eq)
    have cond: "isDigit (peek s) \<or> peek s = rune CHR ''.'' \<or> isExpontent (peek s)"
      using True by (simp add: decimalRune_def)
    show ?thesis
    proof (cases "isExpontent (peek s)")
      case False
      have eq: "scanDecimalNumber_loop s = scanDecimalNumber_loop ?s1"
        using cond False n1 by (subst scanDecimalNumber_loop.simps) (simp add: Let_def)
      have "decimalLoopSpec (snd (next' s)) (scanDecimalNumber_loop (snd (next' s)))"
        by (rule "1.IH"(2) [OF refl]) (use cond False lt in \<open>simp_all add: n1\<close>)
      then have IH: "decimalLoopSpec ?s1 (scanDecimalNumber_loop ?s1)" by (simp add: n1)
      have "isDigit (rune (src s ! ?c)) \<or> src s ! ?c = CHR ''.''"
        using cond False asc by (auto simp: rune_eq_iff [symmetric])
      then show ?thesis
        using decimalLoopSpec_digit [OF lt _ _ IH] False asc by (simp add: eq)
    next
      case exp: True
      show ?thesis
      proof (cases "isLeadingSign (peek ?s1)")
        case False
        have eq: "scanDecimalNumber_loop s = scanDecimalNumber_loop ?s1"
          using exp False n1 by (subst scanDecimalNumber_loop.simps) (simp add: Let_def)
        have "decimalLoopSpec (if isLeadingSign (peek ?s1) then snd (next' ?s1) else ?s1)
            (scanDecimalNumber_loop (if isLeadingSign (peek ?s1) then snd (next' ?s1) else ?s1))"
          by (rule "1.IH"(1) [OF refl _ _ n1 [symmetric] refl])
             (use cond exp lt False in \<open>simp_all\<close>)
        then have IH: "decimalLoopSpec ?s1 (scanDecimalNumber_loop ?s1)"
          using False by simp
        show ?thesis
          using decimalLoopSpec_exponent [OF lt _ False IH] exp asc by (simp add: eq)
      next
        case sign: True
        then have lt1: "Suc ?c < length (src s)" and asc1: "rune (src s ! Suc ?c) = peek ?s1"
          using isLeadingSign_ascii [OF sign] peek_pos [of ?s1] peek_ascii [of ?s1 "peek ?s1"]
          by auto
        have n2: "next' ?s1 = (peek ?s2, ?s2)" using lt1 by (simp add: next'_eq)
        have eq: "scanDecimalNumber_loop s = scanDecimalNumber_loop ?s2"
          using exp sign n1 n2 by (subst scanDecimalNumber_loop.simps) (simp add: Let_def)
        have "decimalLoopSpec (if isLeadingSign (peek ?s1) then snd (next' ?s1) else ?s1)
            (scanDecimalNumber_loop (if isLeadingSign (peek ?s1) then snd (next' ?s1) else ?s1))"
          by (rule "1.IH"(1) [OF refl _ _ n1 [symmetric] refl])
             (use cond exp lt1 sign in \<open>simp_all add: n2\<close>)
        then have IH: "decimalLoopSpec ?s2 (scanDecimalNumber_loop ?s2)"
          using sign by (simp add: n2)
        show ?thesis
          using decimalLoopSpec_signed_exponent [OF lt1 _ _ IH] exp sign asc asc1
          by (simp add: eq)
      qed
    qed
  qed
qed

lemma emit_fields [simp]:
  "Start (fst (emit s t)) = start s"
  "End (fst (emit s t)) = cursor s"
  "cursor (snd (emit s t)) = cursor s"
  "src (snd (emit s t)) = src s"
  "Value (fst (emit s t)) source = take (cursor s - start s) (drop (start s) source)"
  by (simp_all add: emit_def Value_def)

lemma Scan_digit:
  "isDigit (peek s) \<Longrightarrow> Scan K L s = scanNumber s (peek s)"
  by (auto simp: Scan_def Let_def isWhitespace_def isLetter_def isAsciiLetter_def
        isDoubleQuote_def isSingleQuote_def isSingleLineComment_def isMultiLineComment_def
        isLeadingSign_def isDigit_def)

text \<open>
  C6, as amended. A \<open>NUMBER\<close> token lexed through the decimal path (the rune under the
  cursor is a digit, and it is not a \<open>0\<close> followed by \<open>x\<close>, \<open>X\<close> or a digit up to 7)
  starts at the cursor and consists of its first digit and of the characters behind it
  that \<open>decimalRunLength\<close> counts: digits, \<open>.\<close> and exponent markers \<open>e\<close>/\<open>E\<close> in any
  number and order, and a sign where it directly follows an exponent marker, up to the
  first character that is none of these. So the text may hold several \<open>.\<close> and several
  exponent markers, and the rune behind the token is no digit, \<open>.\<close> or exponent
  marker.
\<close>

theorem Scan_decimal_number:
  assumes "isDigit (peek s)"
    and "\<not> (peek s = rune CHR ''0''
            \<and> (lookAhead s 1 = rune CHR ''x'' \<or> lookAhead s 1 = rune CHR ''X''
                \<or> (rune CHR ''0'' \<le> lookAhead s 1 \<and> lookAhead s 1 \<le> rune CHR ''7'')))"
  shows "Type (fst (Scan K L s)) = NUMBER
       \<and> Start (fst (Scan K L s)) = cursor s
       \<and> End (fst (Scan K L s))
           = Suc (cursor s) + decimalRunLength (drop (Suc (cursor s)) (src s))
       \<and> cursor (snd (Scan K L s)) = End (fst (Scan K L s))
       \<and> Value (fst (Scan K L s)) (src s)
           = src s ! cursor s
             # take (decimalRunLength (drop (Suc (cursor s)) (src s))) (drop (Suc (cursor s)) (src s))
       \<and> decimalRun (take (decimalRunLength (drop (Suc (cursor s)) (src s)))
                        (drop (Suc (cursor s)) (src s)))
       \<and> \<not> decimalRune (peek (snd (Scan K L s)))"
proof -
  let ?c = "cursor s"
  let ?s1 = "s\<lparr>start := ?c, cursor := Suc ?c\<rparr>"
  let ?s' = "scanDecimalNumber_loop ?s1"
  let ?n = "decimalRunLength (drop (Suc ?c) (src s))"
  have lt: "?c < length (src s)"
    using assms(1) peek_pos [of s] by (auto simp: isDigit_def)
  have "scanNumber s (peek s) = emit ?s' NUMBER"
    using assms(2) lt
    by (auto simp: scanNumber_def scanNumberic_def scanDecimalNumber_def next'_eq Let_def
          lookAhead_def)
  then have sc: "Scan K L s = emit ?s' NUMBER" using assms(1) by (simp add: Scan_digit)
  have spec: "decimalLoopSpec ?s1 ?s'" using lt by (intro scanDecimalNumber_loop_run) simp
  then have sb: "sameButCursor ?s1 ?s'" and cur: "cursor ?s' = Suc ?c + ?n"
    and stop: "\<not> decimalRune (peek ?s')"
    by (simp_all add: decimalLoopSpec_def)
  have st: "start ?s' = ?c"
    using sb by (cases s, cases ?s') (simp add: sameButCursor_def)
  have "take (Suc ?n) (drop ?c (src s)) = src s ! ?c # take ?n (drop (Suc ?c) (src s))"
    using lt by (simp add: Cons_nth_drop_Suc [symmetric])
  then have val: "Value (fst (Scan K L s)) (src s)
      = src s ! ?c # take ?n (drop (Suc ?c) (src s))"
    using st cur by (simp add: sc)
  have ty: "Type (fst (Scan K L s)) = NUMBER" by (simp add: sc emit_def)
  show ?thesis
    using ty val stop st cur decimalRun_take_length [of "drop (Suc ?c) (src s)"]
    by (simp add: sc)
qed

theorem Scan_decimal_number_witness:
  "isDigit (peek (New ''1.5e+3,'' DBMSGeneric))
   \<and> peek (New ''1.5e+3,'' DBMSGeneric) \<noteq> rune CHR ''0''
   \<and> Type (fst (Scan sqlKeywords (\<lambda>_. False) (New ''1.5e+3,'' DBMSGeneric))) = NUMBER
   \<and> Start (fst (Scan sqlKeywords (\<lambda>_. False) (New ''1.5e+3,'' DBMSGeneric))) = 0
   \<and> End (fst (Scan sqlKeywords (\<lambda>_. False) (New ''1.5e+3,'' DBMSGeneric))) = 6
   \<and> Value (fst (Scan sqlKeywords (\<lambda>_. False) (New ''1.5e+3,'' DBMSGeneric))) ''1.5e+3,''
       = ''1.5e+3''"
proof -
  have p: "peek (New ''1.5e+3,'' DBMSGeneric) = rune CHR ''1''" by code_simp
  have h1: "isDigit (peek (New ''1.5e+3,'' DBMSGeneric))" unfolding p by (simp add: isDigit_def)
  have h2: "\<not> (peek (New ''1.5e+3,'' DBMSGeneric) = rune CHR ''0''
            \<and> (lookAhead (New ''1.5e+3,'' DBMSGeneric) 1 = rune CHR ''x''
                \<or> lookAhead (New ''1.5e+3,'' DBMSGeneric) 1 = rune CHR ''X''
                \<or> (rune CHR ''0'' \<le> lookAhead (New ''1.5e+3,'' DBMSGeneric) 1
                    \<and> lookAhead (New ''1.5e+3,'' DBMSGeneric) 1 \<le> rune CHR ''7'')))"
    unfolding p by simp
  have n: "decimalRunLength ''.5e+3,'' = 5"
    by (simp add: isExpontent_def isDigit_def isLeadingSign_def)
  show ?thesis
    using Scan_decimal_number [OF h1 h2, of sqlKeywords "\<lambda>_. False"] h1 p n
    by (simp add: New_def)
qed

theorem Scan_decimal_number_counterexample:
  "Type (fst (Scan sqlKeywords (\<lambda>_. False) (New ''1.2.3'' DBMSGeneric))) = NUMBER
   \<and> Value (fst (Scan sqlKeywords (\<lambda>_. False) (New ''1.2.3'' DBMSGeneric))) ''1.2.3'' = ''1.2.3''
   \<and> \<not> count_list ''1.2.3'' CHR ''.'' \<le> 1
   \<and> Type (fst (Scan sqlKeywords (\<lambda>_. False) (New ''1e2e3'' DBMSGeneric))) = NUMBER
   \<and> Value (fst (Scan sqlKeywords (\<lambda>_. False) (New ''1e2e3'' DBMSGeneric))) ''1e2e3'' = ''1e2e3''
   \<and> \<not> count_list ''1e2e3'' CHR ''e'' \<le> 1"
  by code_simp

section \<open>Unterminated strings\<close>

lemma peek_no_NUL:
  assumes "cursor s < length (src s)" and "src s ! cursor s \<noteq> CHR 0x00"
  shows "peek s \<noteq> 0"
proof (cases "rune (src s ! cursor s) < 0x80")
  case True
  then have "peek s = rune (src s ! cursor s)" using assms(1) by (rule peek_byte [rotated])
  moreover have "rune (src s ! cursor s) \<noteq> rune (CHR 0x00)"
    using assms(2) by (simp only: rune_eq_iff not_False_eq_True)
  ultimately show ?thesis by simp
next
  case False
  have "drop (cursor s) (src s) = src s ! cursor s # drop (Suc (cursor s)) (src s)"
    using assms(1) by (simp add: Cons_nth_drop_Suc)
  then have "0x80 \<le> peek s"
    using DecodeRuneInString_non_ascii [OF False, of "drop (Suc (cursor s)) (src s)"] assms(1)
    by (simp add: peek_def lookAhead_def)
  then show ?thesis by simp
qed

lemma scanString_loop_unterminated:
  "cursor s \<le> length (src s) \<Longrightarrow> ch = peek s \<Longrightarrow>
   CHR 0x00 \<notin> set (drop (cursor s) (src s)) \<Longrightarrow>
   (if escaped then drop (cursor s) (src s) = [] \<or> unterminated (drop (Suc (cursor s)) (src s))
    else unterminated (drop (cursor s) (src s))) \<Longrightarrow>
   scanString_loop s ch escaped = emit (s\<lparr>cursor := length (src s)\<rparr>) INCOMPLETE_STRING"
proof (induction s ch escaped rule: scanString_loop.induct)
  case (1 s ch escaped)
  let ?c = "cursor s"
  let ?s1 = "s\<lparr>cursor := Suc ?c\<rparr>"
  show ?case
  proof (cases "?c < length (src s)")
    case False
    then have "?c = length (src s)" and "ch = 0"
      using "1.prems"(1,2) by (auto simp: peek_def lookAhead_def)
    then have "s\<lparr>cursor := length (src s)\<rparr> = s" by (cases s) simp
    then show ?thesis
      using \<open>ch = 0\<close> by (subst scanString_loop.simps) (simp add: isEOF_def)
  next
    case True
    then have d: "drop ?c (src s) = src s ! ?c # drop (Suc ?c) (src s)"
      by (simp add: Cons_nth_drop_Suc)
    then have nn: "src s ! ?c \<noteq> CHR 0x00" and nn': "CHR 0x00 \<notin> set (drop (Suc ?c) (src s))"
      using "1.prems"(3) by auto
    have ch0: "ch \<noteq> 0" using peek_no_NUL [OF True nn] "1.prems"(2) by simp
    have n1: "next' s = (peek ?s1, ?s1)" using True by (simp add: next'_eq)
    have bs: "src s ! ?c = CHR 0x5C" if "ch = 0x5C"
      using that "1.prems"(2) peek_ascii [of s "0x5C"] rune_eq_iff [of "src s ! ?c" "CHR 0x5C"]
      by simp
    have nbs: "src s ! ?c \<noteq> CHR 0x5C" if "ch \<noteq> 0x5C"
      using that "1.prems"(2) peek_byte [OF True] by auto
    have nq: "src s ! ?c \<noteq> CHR 0x27" if "ch \<noteq> 0x27"
      using that "1.prems"(2) peek_byte [OF True] by auto
    have q: "src s ! ?c = CHR 0x27" if "ch = 0x27"
      using that "1.prems"(2) peek_ascii [of s "0x27"] rune_eq_iff [of "src s ! ?c" "CHR 0x27"]
      by simp
    have fin: "?s1\<lparr>cursor := length (src s)\<rparr> = s\<lparr>cursor := length (src s)\<rparr>" by simp
    show ?thesis
    proof (cases escaped)
      case esc: True
      have "scanString_loop ?s1 (peek ?s1) False
          = emit (?s1\<lparr>cursor := length (src ?s1)\<rparr>) INCOMPLETE_STRING"
        by (rule "1.IH"(1) [OF _ esc n1 [symmetric] refl])
           (use ch0 True nn' "1.prems"(4) esc d in \<open>simp_all add: isEOF_def\<close>)
      then show ?thesis
        using ch0 esc n1 by (subst scanString_loop.simps) (simp add: isEOF_def)
    next
      case nesc: False
      then have un: "unterminated (src s ! ?c # drop (Suc ?c) (src s))"
        using "1.prems"(4) d by simp
      show ?thesis
      proof (cases "ch = 0x5C")
        case b: True
        have "scanString_loop ?s1 (peek ?s1) True
            = emit (?s1\<lparr>cursor := length (src ?s1)\<rparr>) INCOMPLETE_STRING"
        proof (rule "1.IH"(2) [OF _ nesc b n1 [symmetric] refl])
          show "\<not> isEOF ch" using ch0 by (simp add: isEOF_def)
          show "cursor ?s1 \<le> length (src ?s1)" using True by simp
          show "peek ?s1 = peek ?s1" by simp
          show "CHR 0x00 \<notin> set (drop (cursor ?s1) (src ?s1))" using nn' by simp
          show "if True then drop (cursor ?s1) (src ?s1) = []
                  \<or> unterminated (drop (Suc (cursor ?s1)) (src ?s1))
                else unterminated (drop (cursor ?s1) (src ?s1))"
          proof (cases "drop (Suc ?c) (src s)")
            case Nil
            then show ?thesis by simp
          next
            case (Cons x xs)
            then have "Suc ?c < length (src s)" by (auto simp: not_less intro: ccontr)
            then have "drop (Suc ?c) (src s) = src s ! Suc ?c # drop (Suc (Suc ?c)) (src s)"
              by (simp add: Cons_nth_drop_Suc)
            then show ?thesis using un bs [OF b] by simp
          qed
        qed
        then show ?thesis
          using ch0 nesc b n1 by (subst scanString_loop.simps) (simp add: isEOF_def)
      next
        case nb: False
        have nquote: "ch \<noteq> 0x27"
        proof
          assume "ch = 0x27"
          then show False using un q nbs [OF nb] by simp
        qed
        have "scanString_loop ?s1 (peek ?s1) False
            = emit (?s1\<lparr>cursor := length (src ?s1)\<rparr>) INCOMPLETE_STRING"
          by (rule "1.IH"(3) [OF _ nesc nb nquote n1 [symmetric] refl])
             (use ch0 True nn' un nbs [OF nb] nq [OF nquote] in \<open>simp_all add: isEOF_def\<close>)
        then show ?thesis
          using ch0 nesc nb nquote n1 by (subst scanString_loop.simps) (simp add: isEOF_def)
      qed
    qed
  qed
qed

lemma Scan_quote: "peek s = 0x27 \<Longrightarrow> Scan K L s = scanString s"
  by (simp add: Scan_def Let_def isWhitespace_def isLetter_def isAsciiLetter_def
        isDoubleQuote_def isSingleQuote_def)

text \<open>
  C7, as amended. Where a single quote under the cursor opens a string that no unescaped
  quote closes before the end of the input, and the rest of the input holds no NUL
  character (the rune 0 is the end-of-input sentinel of the lexer), \<open>Scan\<close> returns an
  \<open>INCOMPLETE_STRING\<close> token from the quote to the end of the input, and the cursor is
  at the end of the input.
\<close>

theorem Scan_unterminated_string:
  assumes "peek s = 0x27"
    and "unterminated (drop (Suc (cursor s)) (src s))"
    and "CHR 0x00 \<notin> set (drop (Suc (cursor s)) (src s))"
  shows "Type (fst (Scan K L s)) = INCOMPLETE_STRING
         \<and> Start (fst (Scan K L s)) = cursor s
         \<and> End (fst (Scan K L s)) = length (src s)
         \<and> cursor (snd (Scan K L s)) = length (src s)"
proof -
  let ?s0 = "s\<lparr>start := cursor s\<rparr>"
  let ?s1 = "s\<lparr>start := cursor s, cursor := Suc (cursor s)\<rparr>"
  have lt: "cursor s < length (src s)" using assms(1) peek_pos [of s] by simp
  have n: "next' ?s0 = (peek ?s1, ?s1)" using lt by (simp add: next'_eq)
  have "scanString_loop ?s1 (peek ?s1) False
      = emit (?s1\<lparr>cursor := length (src ?s1)\<rparr>) INCOMPLETE_STRING"
    by (rule scanString_loop_unterminated) (use lt assms in simp_all)
  then have "Scan K L s = emit (?s1\<lparr>cursor := length (src s)\<rparr>) INCOMPLETE_STRING"
    using assms(1) n by (simp add: Scan_quote scanString_def Let_def)
  then show ?thesis by (simp add: emit_def)
qed

theorem Scan_unterminated_string_witness:
  "peek (New [CHR 0x27, CHR ''a'', CHR 0x5C, CHR 0x27, CHR ''b''] DBMSGeneric) = 0x27
   \<and> unterminated [CHR ''a'', CHR 0x5C, CHR 0x27, CHR ''b'']
   \<and> CHR 0x00 \<notin> set [CHR ''a'', CHR 0x5C, CHR 0x27, CHR ''b'']
   \<and> Type (fst (Scan sqlKeywords (\<lambda>_. False)
          (New [CHR 0x27, CHR ''a'', CHR 0x5C, CHR 0x27, CHR ''b''] DBMSGeneric)))
       = INCOMPLETE_STRING
   \<and> Start (fst (Scan sqlKeywords (\<lambda>_. False)
          (New [CHR 0x27, CHR ''a'', CHR 0x5C, CHR 0x27, CHR ''b''] DBMSGeneric))) = 0
   \<and> End (fst (Scan sqlKeywords (\<lambda>_. False)
          (New [CHR 0x27, CHR ''a'', CHR 0x5C, CHR 0x27, CHR ''b''] DBMSGeneric))) = 5"
proof -
  let ?s = "New [CHR 0x27, CHR ''a'', CHR 0x5C, CHR 0x27, CHR ''b''] DBMSGeneric"
  have h1: "peek ?s = 0x27" by code_simp
  have d: "drop (Suc (cursor ?s)) (src ?s) = [CHR ''a'', CHR 0x5C, CHR 0x27, CHR ''b'']"
    by (simp add: New_def)
  have h2: "unterminated (drop (Suc (cursor ?s)) (src ?s))" unfolding d by simp
  have h3: "CHR 0x00 \<notin> set (drop (Suc (cursor ?s)) (src ?s))" unfolding d by simp
  show ?thesis
    using Scan_unterminated_string [OF h1 h2 h3, of sqlKeywords "\<lambda>_. False"] h1 h2 h3
    by (simp add: New_def)
qed

theorem Scan_unterminated_string_counterexample:
  "unterminated [CHR ''a'', CHR 0x00, CHR ''b'']
   \<and> Type (fst (Scan sqlKeywords (\<lambda>_. False) (New [CHR 0x27, CHR ''a'', CHR 0x00, CHR ''b''] DBMSGeneric)))
       = INCOMPLETE_STRING
   \<and> End (fst (Scan sqlKeywords (\<lambda>_. False) (New [CHR 0x27, CHR ''a'', CHR 0x00, CHR ''b''] DBMSGeneric))) = 2
   \<and> cursor (snd (Scan sqlKeywords (\<lambda>_. False) (New [CHR 0x27, CHR ''a'', CHR 0x00, CHR ''b''] DBMSGeneric))) = 2
   \<and> length [CHR 0x27, CHR ''a'', CHR 0x00, CHR ''b''] = 4"
  by code_simp

section \<open>A character of no class\<close>

lemma Scan_backslash:
  "Scan K L (New [CHR 0x5C] dbms) =
     (\<lparr>Type = UNKNOWN, IsTableIndicator = False, Start = 0, End = 0, Digits = [],
       Quotes = [], OutputValue = []\<rparr>,
      New [CHR 0x5C] dbms)"
  by (simp add: Scan_def New_def peek_def lookAhead_def DecodeRuneInString_def Let_def
        isWhitespace_def isLetter_def isAsciiLetter_def isDoubleQuote_def isSingleQuote_def
        isSingleLineComment_def isMultiLineComment_def isLeadingSign_def isDigit_def
        isWildcard_def isOperator_def isPunctuation_def isEOF_def emit_def)

text \<open>
  C2. On the input that is one backslash, \<open>Scan\<close> returns an \<open>UNKNOWN\<close> token with the
  empty span \<open>[0, 0)\<close> and leaves the lexer as it was: no number of calls reaches \<open>EOF\<close>,
  and the spans of the tokens returned never cover the character.
\<close>

theorem ScanAll_backslash_no_EOF:
  "ScanAll K L fuel (New [CHR 0x5C] dbms) = None
   \<and> Type (fst (Scan K L (ScanN K L i (New [CHR 0x5C] dbms)))) = UNKNOWN
   \<and> Start (fst (Scan K L (ScanN K L i (New [CHR 0x5C] dbms)))) = 0
   \<and> End (fst (Scan K L (ScanN K L i (New [CHR 0x5C] dbms)))) = 0"
proof -
  have a: "ScanAll K L fuel (New [CHR 0x5C] dbms) = None"
    by (induction fuel) (simp_all add: Scan_backslash)
  have b: "ScanN K L i (New [CHR 0x5C] dbms) = New [CHR 0x5C] dbms"
    by (induction i) (simp_all add: Scan_backslash)
  show ?thesis by (simp add: a b Scan_backslash)
qed

section \<open>A placeholder as the first token\<close>

lemma Scan_placeholder:
  "Scan K L (New ''?'' dbms) =
     (\<lparr>Type = OPERATOR, IsTableIndicator = False, Start = 0, End = 1, Digits = [],
       Quotes = [], OutputValue = []\<rparr>,
      \<lparr>src = ''?'', cursor = 1, start = 1, DBMS = dbms, digits = [], quotes = [],
       isTableIndicator = False\<rparr>)"
  by (simp add: Scan_def New_def peek_def lookAhead_def DecodeRuneInString_def Let_def
        isWhitespace_def isLetter_def isAsciiLetter_def isDoubleQuote_def isSingleQuote_def
        isSingleLineComment_def isMultiLineComment_def isLeadingSign_def isDigit_def
        isWildcard_def isOperator_def scanOperator_def next'_def nextBy_def
        scanOperator_loop.simps emit_def)

text \<open>
  C1. \<open>Normalize\<close> of the input \<open>?\<close> does not return a result: with any configuration,
  dialect and keyword table the first round of its loop reads \<open>lastValueToken.Value\<close>
  while \<open>lastValueToken\<close> is still nil, and the call ends in a panic.
\<close>

theorem Normalize_placeholder_panics:
  "Normalize K L n dbms (Suc fuel) ''?'' = Some (Inl NilPointerDereference)"
  by (simp add: Normalize_init_def Normalize_round_def Scan_placeholder [unfolded New_def]
        New_def collectMetadata_def normalizeSQL_def isObfuscatedValueGroupable_def String_def
        Value_def NumberPlaceholder_def StringPlaceholder_def Let_def)

section \<open>Metadata of a returned call\<close>

lemma dedupeCollectedMetadata_loop_distinct:
  "dom metadataSeen = set dedupedMetadata \<Longrightarrow> distinct dedupedMetadata \<Longrightarrow>
   sz = sum_list (map length dedupedMetadata) \<Longrightarrow>
   dedupeCollectedMetadata_loop metadata metadataSeen dedupedMetadata sz = (d, z) \<Longrightarrow>
   distinct d \<and> z = sum_list (map length d)"
proof (induction metadata arbitrary: metadataSeen dedupedMetadata sz)
  case Nil
  then show ?case by auto
next
  case (Cons m metadata)
  show ?case
  proof (cases "metadataSeen m = None")
    case True
    then have "m \<notin> dom metadataSeen" by (simp add: domIff)
    then have nin: "m \<notin> set dedupedMetadata" using Cons.prems(1) by simp
    have a: "dom (metadataSeen(m \<mapsto> ())) = set (dedupedMetadata @ [m])"
      using Cons.prems(1) by auto
    have b: "distinct (dedupedMetadata @ [m])" using Cons.prems(2) nin by simp
    have c: "sz + length m = sum_list (map length (dedupedMetadata @ [m]))"
      using Cons.prems(3) by simp
    have d: "dedupeCollectedMetadata_loop metadata (metadataSeen(m \<mapsto> ()))
               (dedupedMetadata @ [m]) (sz + length m) = (d, z)"
      using Cons.prems(4) True by simp
    show ?thesis by (rule Cons.IH [OF a b c d])
  next
    case False
    then show ?thesis using Cons.IH [of metadataSeen dedupedMetadata sz] Cons.prems by simp
  qed
qed

lemma dedupeCollectedMetadata_distinct:
  "dedupeCollectedMetadata metadata = (d, z) \<Longrightarrow> distinct d \<and> z = sum_list (map length d)"
  unfolding dedupeCollectedMetadata_def
  by (rule dedupeCollectedMetadata_loop_distinct [of Map.empty "[]" 0]) simp_all

lemma dedupeStatementMetadata_distinct:
  assumes "dedupeStatementMetadata info = md"
  shows "distinct (Tables md) \<and> distinct (Comments md) \<and> distinct (Commands md)
         \<and> distinct (Procedures md)
         \<and> Size md = Size info + sum_list (map length (Tables md @ Comments md @ Commands md @ Procedures md))"
proof -
  obtain t tz where t: "dedupeCollectedMetadata (Tables info) = (t, tz)" by force
  obtain c cz where c: "dedupeCollectedMetadata (Comments info) = (c, cz)" by force
  obtain k kz where k: "dedupeCollectedMetadata (Commands info) = (k, kz)" by force
  obtain p pz where p: "dedupeCollectedMetadata (Procedures info) = (p, pz)" by force
  show ?thesis
    using assms dedupeCollectedMetadata_distinct [OF t] dedupeCollectedMetadata_distinct [OF c]
      dedupeCollectedMetadata_distinct [OF k] dedupeCollectedMetadata_distinct [OF p]
    by (auto simp: dedupeStatementMetadata_def t c k p)
qed

lemma Size_collectMetadata:
  "collectMetadata n source token lv md cs = (token', md', cs') \<Longrightarrow> Size md' = Size md"
  by (auto simp: collectMetadata_def Let_def split: if_splits option.splits)

lemma Size_Normalize_round:
  "Normalize_round K L n nb st = Some (Inr (fin, st')) \<Longrightarrow>
   Size (statementMetadata st') = Size (statementMetadata st)"
  by (auto simp: Normalize_round_def Let_def dest: Size_collectMetadata
           split: prod.splits option.splits sum.splits)

lemma Size_Normalize_loop:
  "Normalize_loop K L n dbms fuel st = Some (Inr st') \<Longrightarrow>
   Size (statementMetadata st') = Size (statementMetadata st)"
proof (induction fuel arbitrary: st)
  case 0
  then show ?case by simp
next
  case (Suc fuel)
  then show ?case
    by (auto dest: Size_Normalize_round split: option.splits sum.splits bool.splits)
qed

text \<open>
  C4. For every input and every configuration, the metadata of a call of \<open>Normalize\<close>
  that returns has no string twice in its tables, in its comments, in its commands or
  in its procedures, and its size is the sum of the byte lengths of all the strings in
  the four sequences.
\<close>

theorem Normalize_metadata_deduplicated:
  assumes "Normalize K L n dbms fuel input = Some (Inr (normalizedSQL, md))"
  shows "distinct (Tables md) \<and> distinct (Comments md) \<and> distinct (Commands md)
         \<and> distinct (Procedures md)
         \<and> Size md = sum_list (map length (Tables md @ Comments md @ Commands md @ Procedures md))"
proof -
  from assms obtain st where
    loop: "Normalize_loop K L n dbms fuel (Normalize_init input dbms) = Some (Inr st)" and
    fin: "Normalize_finish n st = (normalizedSQL, md)"
    by (auto split: option.splits sum.splits)
  have "Size (statementMetadata st) = 0"
    using Size_Normalize_loop [OF loop] by (simp add: Normalize_init_def)
  moreover have "dedupeStatementMetadata (statementMetadata st) = md"
    using fin by (simp add: Normalize_finish_def)
  ultimately show ?thesis using dedupeStatementMetadata_distinct [of "statementMetadata st" md]
    by simp
qed

lemma Normalize_join_eval:
  "Normalize sqlKeywords (\<lambda>_. False) scenarioConfig DBMSGeneric 20 ''SELECT a FROM t JOIN t''
   = Some (Inr (''SELECT a FROM t JOIN t'',
        \<lparr>Size = 11, Tables = [''t''], Comments = [], Commands = [''SELECT'', ''JOIN''],
         Procedures = []\<rparr>))"
  by code_simp

theorem Normalize_metadata_deduplicated_witness:
  "Normalize sqlKeywords (\<lambda>_. False) scenarioConfig DBMSGeneric 20 ''SELECT a FROM t JOIN t''
   = Some (Inr (''SELECT a FROM t JOIN t'',
        \<lparr>Size = 11, Tables = [''t''], Comments = [], Commands = [''SELECT'', ''JOIN''],
         Procedures = []\<rparr>))
   \<and> distinct [''t''] \<and> distinct [''SELECT'', ''JOIN'']
   \<and> (11::nat) = sum_list (map length ([''t''] @ [] @ [''SELECT'', ''JOIN''] @ []))"
  using Normalize_metadata_deduplicated [OF Normalize_join_eval] Normalize_join_eval by simp

section \<open>Two at-signs\<close>






text \<open>
  The placeholder state becomes groupable only behind a test of the value of
  \<open>lastValueToken\<close>, so \<open>groupableInvariant\<close> holds in every state of the loop of
  \<open>Normalize\<close>: in the first one, after every round that returns, and in the state that
  the loop returns.
\<close>

lemma collectMetadata_Type:
  "Type (fst (collectMetadata n source token lv md cs)) = Type token"
  by (simp add: collectMetadata_def Let_def SetOutputValue_def split: option.splits)

lemma isObfuscatedValueGroupable_invariant:
  assumes "isObfuscatedValueGroupable n source token lv g b = Inr (r, g', b')"
    and "\<not> groupable g \<or> lv \<noteq> None"
  shows "\<not> groupable g' \<or> lv \<noteq> None"
  using assms
  by (cases lv) (auto simp: isObfuscatedValueGroupable_def Let_def split: if_splits)

lemma writeOut_same:
  "writeOut n source token lv b g h = (t', b', g', h') \<Longrightarrow> t' = token \<and> g' = g"
  by (auto simp: writeOut_def Let_def split: if_splits)

lemma isObfuscatedValueGroupable_first:
  "\<not> groupable g \<Longrightarrow>
   isObfuscatedValueGroupable n source token None g b
     = (if String token source = NumberPlaceholder \<or> String token source = StringPlaceholder
        then Inl NilPointerDereference else Inr (False, g, b))"
  by (simp add: isObfuscatedValueGroupable_def Let_def)

lemma normalizeSQL_first:
  assumes "normalizeSQL n normalizeBody source token None b g h = Some (Inr (t', b', g', h'))"
    and "\<not> groupable g"
  shows "\<not> groupable g'"
  using assms
  by (auto simp: normalizeSQL_def Let_def isObfuscatedValueGroupable_first
        split: if_splits option.splits sum.splits prod.splits dest: writeOut_same)

lemma groupableInvariant_init: "groupableInvariant (Normalize_init input dbms)"
  by (simp add: groupableInvariant_def Normalize_init_def)

lemma groupableInvariant_round:
  assumes "Normalize_round K L n normalizeBody st = Some (Inr (eof, st'))"
    and "groupableInvariant st"
  shows "groupableInvariant st'"
proof (cases "lastValueToken st")
  case None
  then have ng: "\<not> groupable (groupablePlaceholderState st)"
    using assms(2) by (simp add: groupableInvariant_def)
  obtain token lx where sc: "Scan K L (lexer st) = (token, lx)" by force
  obtain token1 md cs where cm:
    "collectMetadata n (src (lexer st)) token None (statementMetadata st) (ctes st)
       = (token1, md, cs)"
    by (cases "collectMetadata n (src (lexer st)) token None (statementMetadata st) (ctes st)")
  obtain t' b' g' h' where ns:
    "normalizeSQL n normalizeBody (src (lexer st)) token1 None (normalizedSQLBuilder st)
       (groupablePlaceholderState st) (headStateVar st) = Some (Inr (t', b', g', h'))"
    and g': "groupablePlaceholderState st' = g'"
    using assms(1) sc cm None
    by (auto simp: Normalize_round_def Let_def split: option.splits sum.splits prod.splits)
  show ?thesis
    using normalizeSQL_first [OF ns ng] g' by (simp add: groupableInvariant_def)
next
  case (Some lv)
  then have "lastValueToken st' \<noteq> None"
    using assms(1)
    by (auto simp: Normalize_round_def Let_def split: option.splits sum.splits prod.splits)
  then show ?thesis by (simp add: groupableInvariant_def)
qed

lemma groupableInvariant_loop:
  "Normalize_loop K L n dbms fuel st = Some (Inr st') \<Longrightarrow> groupableInvariant st \<Longrightarrow>
   groupableInvariant st'"
proof (induction fuel arbitrary: st)
  case 0
  then show ?case by simp
next
  case (Suc fuel)
  let ?round = "Normalize_round K L n (Normalize K L n dbms fuel) st"
  have loop: "(case ?round of
        None \<Rightarrow> None
      | Some (Inl e) \<Rightarrow> Some (Inl e)
      | Some (Inr (True, st1)) \<Rightarrow> Some (Inr st1)
      | Some (Inr (False, st1)) \<Rightarrow> Normalize_loop K L n dbms fuel st1) = Some (Inr st')"
    using Suc.prems(1) by (simp del: Normalize.simps)
  then obtain eof st1 where r: "?round = Some (Inr (eof, st1))"
    by (auto split: option.splits sum.splits)
  have inv1: "groupableInvariant st1"
    using r Suc.prems(2) by (rule groupableInvariant_round)
  show ?case
  proof (cases eof)
    case True
    then show ?thesis using loop r inv1 by simp
  next
    case False
    then have "Normalize_loop K L n dbms fuel st1 = Some (Inr st')"
      using loop r by simp
    then show ?thesis using inv1 by (rule Suc.IH)
  qed
qed




section \<open>End-to-end scenarios\<close>





lemma Normalize_quoted_eval:
  "Normalize sqlKeywords L scenarioConfig DBMSGeneric 100
     ''SELECT * FROM \"public\".\"users\" WHERE id = ?''
   = Some (Inr
       (''SELECT * FROM public.users WHERE id = ?'',
        \<lparr>Size = 18, Tables = [''public.users''], Comments = [],
         Commands = [''SELECT''], Procedures = []\<rparr>))"
  by code_simp

text \<open>
  C5, as amended. With tables, commands and comments collected and every other option
  at its default, so that identifier quotation is not kept, \<open>Normalize\<close> of the statement
  that selects from \<open>"public"."users"\<close> returns the text with the identifier without
  its quotes, \<open>public.users\<close>, and the tables \<open>[public.users]\<close>, without the quote
  characters; the commands are \<open>[SELECT]\<close>.
\<close>

theorem Normalize_quoted_scenario:
  "Normalize sqlKeywords L scenarioConfig DBMSGeneric 100
     ''SELECT * FROM \"public\".\"users\" WHERE id = ?''
   = Some (Inr
       (''SELECT * FROM public.users WHERE id = ?'',
        \<lparr>Size = 18, Tables = [''public.users''], Comments = [],
         Commands = [''SELECT''], Procedures = []\<rparr>))"
  by (rule Normalize_quoted_eval)

theorem Normalize_quoted_scenario_counterexample:
  "\<exists>normalizedSQL md.
     Normalize sqlKeywords (\<lambda>_. False) scenarioConfig DBMSGeneric 100
       ''SELECT * FROM \"public\".\"users\" WHERE id = ?'' = Some (Inr (normalizedSQL, md))
     \<and> normalizedSQL \<noteq> ''SELECT * FROM \"public\".\"users\" WHERE id = ?''
     \<and> Tables md \<noteq> [''\"public\".\"users\"'']"
  by (intro exI conjI, rule Normalize_quoted_eval) simp_all

section \<open>A leading parenthesized expression\<close>

text \<open>
  C10. The first token of \<open>(?, a) b\<close> is \<open>(\<close>, and the token \<open>b\<close> follows the first
  \<open>)\<close>. The comma of the parenthesized prefix is in the output all the same: it is
  suppressed behind the placeholder and written again before \<open>a\<close>, to the main builder
  and not to the deferred buffer that holds the other tokens of the prefix.
\<close>

theorem Normalize_leading_parentheses_comma:
  "Normalize sqlKeywords L scenarioConfig DBMSGeneric 20 ''(?, a) b''
   = Some (Inr ('', b'',
        \<lparr>Size = 0, Tables = [], Comments = [], Commands = [], Procedures = []\<rparr>))"
  by code_simp

text \<open>
  The same write to the main builder on the example of the comment in
  \<open>isObfuscatedValueGroupable\<close>, which says that \<open>(?, ARRAY[?, ?, ?])\<close> should be
  normalized as \<open>(?, ARRAY[?])\<close>: the comma comes out in front of the expression.
\<close>

lemma Normalize_nested_group_comma:
  "Normalize sqlKeywords L scenarioConfig DBMSGeneric 20 ''(?, ARRAY[?, ?, ?])''
   = Some (Inr ('', ( ? ARRAY [ ? ] )'',
        \<lparr>Size = 0, Tables = [], Comments = [], Commands = [], Procedures = []\<rparr>))"
  by code_simp

end
